theory Spec2Isabelle
  imports Main "HOL-Library.AList" "HOL-Library.Monad_Syntax"
begin

section \<open>Python values and string helpers\<close>

text \<open>
  The scraper keeps every record as a Python dictionary with string keys, and writes
  and reads them as JSON. A dictionary is an association list: \<open>AList.update\<close> replaces
  the value of a key in place and appends a new key at the end, which is the insertion
  order of a Python dict.
\<close>

datatype pyval =
    PNone
  | PBool bool
  | PInt int
  | PStr string
  | PList "pyval list"
  | PDict "(string \<times> pyval) list"

type_synonym dict = "(string \<times> pyval) list"

datatype error =
    KeyError
  | TypeError
  | AttributeError
  | JSONDecodeError
  | FileNotFoundError
  | WebDriverException
  | TimeoutException

text \<open>Truth value of a Python object, as \<open>if x\<close>, \<open>x and y\<close>, \<open>x or y\<close> test it.\<close>

fun truthy :: "pyval \<Rightarrow> bool" where
  "truthy PNone = False"
| "truthy (PBool b) = b"
| "truthy (PInt n) = (n \<noteq> 0)"
| "truthy (PStr s) = (s \<noteq> [])"
| "truthy (PList xs) = (xs \<noteq> [])"
| "truthy (PDict d) = (d \<noteq> [])"

text \<open>
  \<open>str.strip()\<close> removes the whitespace at both ends. The characters are those below
  256 that Python counts as whitespace: tab, line feed, vertical tab, form feed, carriage
  return, the separators 28 to 31, the space, next line (133) and the no-break space
  (160).
\<close>

definition is_space :: "char \<Rightarrow> bool" where
  "is_space c =
     (let n = of_char c :: nat
      in (9 \<le> n \<and> n \<le> 13) \<or> (28 \<le> n \<and> n \<le> 32) \<or> n = 133 \<or> n = 160)"

definition strip :: "string \<Rightarrow> string" where
  "strip s = rev (dropWhile is_space (rev (dropWhile is_space s)))"

text \<open>\<open>s.split(c)[0]\<close>: the text before the first occurrence of the separator.\<close>

definition split_first :: "char \<Rightarrow> string \<Rightarrow> string" where
  "split_first c s = takeWhile (\<lambda>x. x \<noteq> c) s"

text \<open>\<open>s.split(c)\<close> with an explicit separator: every occurrence cuts, the result is never
  empty, and two separators in a row give an empty piece.\<close>

fun split_on :: "char \<Rightarrow> string \<Rightarrow> string list" where
  "split_on c [] = [[]]"
| "split_on c (x # xs) =
     (if x = c then [] # split_on c xs
      else (case split_on c xs of
              [] \<Rightarrow> [[x]]
            | w # ws \<Rightarrow> (x # w) # ws))"

text \<open>\<open>sub in s\<close> on strings: \<open>sub\<close> occurs as a contiguous piece of \<open>s\<close>.\<close>

fun starts_with :: "string \<Rightarrow> string \<Rightarrow> bool" where
  "starts_with [] s = True"
| "starts_with (a # as) [] = False"
| "starts_with (a # as) (b # bs) = (a = b \<and> starts_with as bs)"

fun contains :: "string \<Rightarrow> string \<Rightarrow> bool" where
  "contains sub [] = (sub = [])"
| "contains sub (x # xs) = (starts_with sub (x # xs) \<or> contains sub xs)"

text \<open>\<open>{**a, **b}\<close>: the keys of \<open>b\<close> are stored into \<open>a\<close> one after the other.\<close>

definition dict_merge :: "dict \<Rightarrow> dict \<Rightarrow> dict" where
  "dict_merge a b = fold (\<lambda>(k, v). AList.update k v) b a"

section \<open>The listing page and the record extractor (gather_events.py)\<close>

text \<open>
  What Selenium shows of a listing page: the table located by the XPath of
  \<open>process_data_table\<close> (\<open>None\<close> when the wait for it times out), as the list of its
  \<open>tr\<close> rows, each row the list of its \<open>td\<close> cells; a cell has its text and its first
  anchor, if any; an anchor has its text and its \<open>href\<close> attribute, which
  \<open>get_attribute\<close> returns as \<open>None\<close> when the attribute is missing. The "next" link of
  the page is the page that a successful click loads, \<open>None\<close> when no clickable link is
  found or the click fails.
\<close>

datatype anchor = Anchor (a_text: string) (a_href: "string option")

datatype cell = Cell (cell_text: string) (cell_anchor: "anchor option")

type_synonym row = "cell list"

datatype page = Page (page_table: "row list option") (next_link: "page option")

text \<open>
  \<open>format_deadline\<close>. The parameter \<open>fmt\<close> stands for the standard library's
  \<open>datetime.strptime(s, '%b %d, %Y').strftime('%d/%m/%y')\<close>: \<open>None\<close> when \<open>strptime\<close>
  raises \<open>ValueError\<close>, the reformatted date otherwise.
\<close>

definition format_deadline :: "(string \<Rightarrow> string option) \<Rightarrow> string \<Rightarrow> string" where
  "format_deadline fmt deadline_str =
     (if deadline_str = ''N/A'' then deadline_str
      else
        let s = strip (split_first CHR ''('' deadline_str)
        in (case fmt s of Some d \<Rightarrow> d | None \<Rightarrow> s))"

text \<open>
  The body of the \<open>for\<close> loop of \<open>process_data_table\<close>, for the record whose first row
  is \<open>cells1\<close> and whose second row is \<open>row2\<close> (\<open>None\<close> when \<open>i + 1\<close> is past the last
  row). \<open>None\<close> is the \<open>continue\<close> of a first row with fewer than two cells.
\<close>

definition name_and_link :: "cell \<Rightarrow> string \<times> pyval" where
  "name_and_link c =
     (case cell_anchor c of
        Some a \<Rightarrow> (strip (a_text a), (case a_href a of Some h \<Rightarrow> PStr h | None \<Rightarrow> PNone))
      | None \<Rightarrow> (strip (cell_text c), PStr ''N/A''))"

definition when_where_deadline ::
  "(string \<Rightarrow> string option) \<Rightarrow> row option \<Rightarrow> string \<times> string \<times> string" where
  "when_where_deadline fmt row2 =
     (case row2 of
        None \<Rightarrow> (''N/A'', ''N/A'', ''N/A'')
      | Some cells2 \<Rightarrow>
          if 3 \<le> length cells2
          then (strip (cell_text (cells2 ! 0)), strip (cell_text (cells2 ! 1)),
                format_deadline fmt (strip (cell_text (cells2 ! 2))))
          else (''N/A'', ''N/A'', ''N/A''))"

definition event_data :: "(string \<Rightarrow> string option) \<Rightarrow> row \<Rightarrow> row option \<Rightarrow> dict" where
  "event_data fmt cells1 row2 =
     (let (event_name, event_link) = name_and_link (cells1 ! 0);
          description = (if 2 \<le> length cells1 then strip (cell_text (cells1 ! 1)) else ''N/A'');
          (when, wher, deadline) = when_where_deadline fmt row2
      in [(''event_name'', PStr event_name),
          (''description'', PStr description),
          (''link'', event_link),
          (''when'', PStr when),
          (''where'', PStr wher),
          (''deadline'', PStr deadline)])"

definition process_record :: "(string \<Rightarrow> string option) \<Rightarrow> row list \<Rightarrow> nat \<Rightarrow> dict option" where
  "process_record fmt rows i =
     (let cells1 = rows ! i
      in if length cells1 < 2 then None
         else Some (event_data fmt cells1
                      (if i + 1 < length rows then Some (rows ! (i + 1)) else None)))"

text \<open>\<open>for i in range(1, len(rows), 2)\<close>, with the list \<open>events\<close> as accumulator.\<close>

function rows_loop ::
  "(string \<Rightarrow> string option) \<Rightarrow> row list \<Rightarrow> nat \<Rightarrow> dict list \<Rightarrow> dict list" where
  "rows_loop fmt rows i events =
     (if i < length rows
      then rows_loop fmt rows (i + 2)
             (case process_record fmt rows i of
                None \<Rightarrow> events
              | Some e \<Rightarrow> events @ [e])
      else events)"
  by pat_completeness auto
termination
  by (relation "measure (\<lambda>(fmt, rows, i, events). length rows - i)") auto

definition process_data_table :: "(string \<Rightarrow> string option) \<Rightarrow> page \<Rightarrow> dict list" where
  "process_data_table fmt p =
     (case page_table p of
        None \<Rightarrow> []
      | Some rows \<Rightarrow> if length rows < 3 then [] else rows_loop fmt rows 1 [])"

text \<open>The rows of a table made of a header and of two-row records.\<close>

definition pair_rows :: "(row \<times> row) list \<Rightarrow> row list" where
  "pair_rows prs = concat (map (\<lambda>(r1, r2). [r1, r2]) prs)"

section \<open>Pagination (gather_events.py, main)\<close>

text \<open>
  \<open>click_next_page\<close>: \<open>True\<close> and the page the click loads, or \<open>False\<close> when no
  clickable "next" link is found or the click fails; the driver then stays where it is.
\<close>

definition click_next_page :: "page \<Rightarrow> bool \<times> page" where
  "click_next_page p =
     (case next_link p of
        Some q \<Rightarrow> (True, q)
      | None \<Rightarrow> (False, p))"

text \<open>
  The state of the \<open>while True\<close> loop of \<open>main\<close>: the counter \<open>page_count\<close>, the list
  \<open>all_events\<close>, the page the driver shows, and the number of calls of
  \<open>click_next_page\<close> made so far (a ghost counter: the code does not keep it).
\<close>

record pagination =
  page_count :: int
  all_events :: "dict list"
  driver :: page
  clicks :: nat

definition start :: "page \<Rightarrow> pagination" where
  "start p = \<lparr>page_count = 0, all_events = [], driver = p, clicks = 0\<rparr>"

text \<open>One pass of the loop body up to the test: count the page, extract, extend.\<close>

definition visit :: "(string \<Rightarrow> string option) \<Rightarrow> pagination \<Rightarrow> pagination" where
  "visit fmt s =
     s\<lparr>page_count := page_count s + 1,
       all_events := all_events s @ process_data_table fmt (driver s)\<rparr>"

text \<open>The call of \<open>click_next_page\<close>, which the \<open>or\<close> makes only below the ceiling.\<close>

definition advance :: "pagination \<Rightarrow> pagination" where
  "advance s = s\<lparr>driver := snd (click_next_page (driver s)), clicks := clicks s + 1\<rparr>"

function paginate :: "(string \<Rightarrow> string option) \<Rightarrow> int \<Rightarrow> pagination \<Rightarrow> pagination" where
  "paginate fmt max_pages s =
     (if max_pages \<le> page_count (visit fmt s) then visit fmt s
      else if \<not> fst (click_next_page (driver (visit fmt s))) then advance (visit fmt s)
      else paginate fmt max_pages (advance (visit fmt s)))"
  by pat_completeness auto
termination
  by (relation "measure (\<lambda>(fmt, max_pages, s). nat (max_pages - page_count s))")
     (auto simp: visit_def advance_def)

text \<open>The pages that the "next" links chain together, from a first page on.\<close>

fun chain :: "page \<Rightarrow> page list" where
  "chain (Page t None) = [Page t None]"
| "chain (Page t (Some q)) = Page t (Some q) # chain q"

section \<open>The detail enricher (gather_events.py, scrape_event_details)\<close>

text \<open>
  What the browser and the parsers give for one detail page, once it is loaded:
  \<^item> \<open>title_tag\<close>: the text of the \<open>title\<close> element, \<open>driver_title\<close>: \<open>driver.title\<close>;
  \<^item> \<open>meta_desc\<close>: the \<open>meta name="description"\<close> element and its \<open>content\<close> attribute;
  \<^item> \<open>deadline_match\<close>, \<open>review_match\<close>, \<open>rank_match\<close>, \<open>pages_match\<close>: group 1 of the
    first match of the four regular expressions; for the last it is a run of decimal
    digits, taken here as ASCII digits;
  \<^item> \<open>workshop_text\<close>: some text node matches "workshop";
  \<^item> \<open>link_text\<close>: the first text node holding "Link:", its enclosing \<open>td\<close>, and the
    \<open>href\<close> of the first anchor with one inside that cell;
  \<^item> \<open>cat_h5\<close>: the first \<open>h5\<close> element: its text, and the text pieces of each anchor
    inside it.
\<close>

record detail_page =
  title_tag :: "string option"
  driver_title :: string
  meta_desc :: "string option option"
  deadline_match :: "string option"
  review_match :: "string option"
  rank_match :: "string option"
  workshop_text :: bool
  pages_match :: "string option"
  link_text :: "string option option option"
  cat_h5 :: "(string \<times> string list list) option"

text \<open>
  The outcome of \<open>driver.get(event_url)\<close>, of the wait for the body and of the parsing:
  \<open>Inl msg\<close> when an exception is raised there, before the first field is stored, \<open>msg\<close>
  being its \<open>str(e)\<close>, and the page otherwise. The key is the value of the record's
  \<open>link\<close>.
\<close>

type_synonym web = "pyval \<Rightarrow> string + detail_page"

text \<open>\<open>get_text()\<close> and \<open>get_text(strip=True)\<close> of an element with these text pieces.\<close>

definition get_text :: "string list \<Rightarrow> string" where
  "get_text pieces = concat pieces"

definition get_text_strip :: "string list \<Rightarrow> string" where
  "get_text_strip pieces = concat (filter (\<lambda>s. s \<noteq> []) (map strip pieces))"

text \<open>
  \<open>int(s)\<close> on a run of decimal digits. Python refuses a text of more than 4300 digits
  (leading zeros count) with a \<open>ValueError\<close>, whose message names the number of digits.
\<close>

definition digit_value :: "char \<Rightarrow> nat" where
  "digit_value c = of_char c - 48"

definition nat_of_digits :: "string \<Rightarrow> nat" where
  "nat_of_digits ds = foldl (\<lambda>acc c. 10 * acc + digit_value c) 0 ds"

function show_nat :: "nat \<Rightarrow> string" where
  "show_nat n =
     (if n < 10 then [char_of (48 + n)]
      else show_nat (n div 10) @ [char_of (48 + n mod 10)])"
  by pat_completeness auto
termination
  by (relation "measure (\<lambda>n. n)") auto

definition int_limit_message :: "nat \<Rightarrow> string" where
  "int_limit_message n =
     ''Exceeds the limit (4300 digits) for integer string conversion: value has '' @ show_nat n
     @ '' digits; use sys.set_int_max_str_digits() to increase the limit''"

definition py_int :: "string \<Rightarrow> string + int" where
  "py_int ds =
     (if 4300 < length ds then Inl (int_limit_message (length ds))
      else Inr (int (nat_of_digits ds)))"

text \<open>The right-hand sides of the nine assignments to \<open>details\<close>, in the order of the code.\<close>

definition or_na :: "string option \<Rightarrow> pyval" where
  "or_na m = (case m of Some g \<Rightarrow> PStr (strip g) | None \<Rightarrow> PStr ''N/A'')"

definition page_title_of :: "detail_page \<Rightarrow> pyval" where
  "page_title_of pg = PStr (case title_tag pg of Some t \<Rightarrow> strip t | None \<Rightarrow> driver_title pg)"

definition meta_description_of :: "detail_page \<Rightarrow> pyval" where
  "meta_description_of pg =
     PStr (case meta_desc pg of
             Some (Some c) \<Rightarrow> if c \<noteq> [] then strip c else ''N/A''
           | _ \<Rightarrow> ''N/A'')"

definition minimum_pages_of :: "detail_page \<Rightarrow> string + pyval" where
  "minimum_pages_of pg =
     (case pages_match pg of
        Some ds \<Rightarrow> (case py_int ds of Inl msg \<Rightarrow> Inl msg | Inr n \<Rightarrow> Inr (PInt n))
      | None \<Rightarrow> Inr (PStr ''N/A''))"

definition website_link_of :: "detail_page \<Rightarrow> pyval" where
  "website_link_of pg =
     (case link_text pg of
        Some (Some (Some h)) \<Rightarrow> PStr h
      | _ \<Rightarrow> PStr ''N/A'')"

definition categories_of :: "detail_page \<Rightarrow> pyval" where
  "categories_of pg =
     (case cat_h5 pg of
        Some (txt, a_tags) \<Rightarrow>
          if contains ''Categories'' txt
          then PList (map (\<lambda>a. PStr (get_text_strip a))
                       (filter (\<lambda>a. \<not> contains ''Categories'' (get_text a)) a_tags))
          else PList []
      | None \<Rightarrow> PList [])"

definition detail_assignments :: "detail_page \<Rightarrow> (string \<times> (string + pyval)) list" where
  "detail_assignments pg =
     [(''page_title'', Inr (page_title_of pg)),
      (''meta_description'', Inr (meta_description_of pg)),
      (''detailed_deadline'', Inr (or_na (deadline_match pg))),
      (''review_time'', Inr (or_na (review_match pg))),
      (''conference_rank'', Inr (or_na (rank_match pg))),
      (''is_workshop'', Inr (PBool (workshop_text pg))),
      (''minimum_pages'', minimum_pages_of pg),
      (''website_link'', Inr (website_link_of pg)),
      (''categories'', Inr (categories_of pg))]"

text \<open>
  The body of the \<open>try\<close> after the page is parsed: the assignments \<open>details[key] = v\<close>
  run in order; when the right-hand side of one raises (\<open>Inl msg\<close>), the \<open>except\<close> stores
  the message under \<open>error\<close> and the assignments after it are not made.
\<close>

fun assign_all :: "(string \<times> (string + pyval)) list \<Rightarrow> dict \<Rightarrow> dict" where
  "assign_all [] details = details"
| "assign_all ((key, outcome) # rest) details =
     (case outcome of
        Inl msg \<Rightarrow> AList.update ''error'' (PStr msg) details
      | Inr v \<Rightarrow> assign_all rest (AList.update key v details))"

definition scrape_event_details :: "web \<Rightarrow> pyval \<Rightarrow> dict" where
  "scrape_event_details w event_url =
     (case w event_url of
        Inl msg \<Rightarrow> AList.update ''error'' (PStr msg) []
      | Inr pg \<Rightarrow> assign_all (detail_assignments pg) [])"

text \<open>The nine keys of a complete attribute set, and the six stored before the page
  number is converted.\<close>

definition detail_keys :: "string list" where
  "detail_keys = [''page_title'', ''meta_description'', ''detailed_deadline'', ''review_time'',
     ''conference_rank'', ''is_workshop'', ''minimum_pages'', ''website_link'', ''categories'']"

definition keys_before_pages :: "string list" where
  "keys_before_pages = [''page_title'', ''meta_description'', ''detailed_deadline'',
     ''review_time'', ''conference_rank'', ''is_workshop'']"

text \<open>
  The second loop of \<open>main\<close>: \<open>event["link"]\<close> raises \<open>KeyError\<close> on a record without
  that key; a record whose link is false or "N/A" is passed over.
\<close>

definition has_link :: "dict \<Rightarrow> bool" where
  "has_link event =
     (case map_of event ''link'' of
        Some l \<Rightarrow> truthy l \<and> l \<noteq> PStr ''N/A''
      | None \<Rightarrow> False)"

fun details_loop :: "web \<Rightarrow> dict list \<Rightarrow> dict list \<Rightarrow> error + dict list" where
  "details_loop w [] all_events_details = Inr all_events_details"
| "details_loop w (event # rest) all_events_details =
     (case map_of event ''link'' of
        None \<Rightarrow> Inl KeyError
      | Some l \<Rightarrow>
          if truthy l \<and> l \<noteq> PStr ''N/A''
          then details_loop w rest
                 (all_events_details @ [dict_merge event (scrape_event_details w l)])
          else details_loop w rest all_events_details)"

section \<open>Files and environment\<close>

text \<open>
  A file is what \<open>json.load\<close> makes of its text: the decoded value, or nothing when the
  text does not decode. \<open>json.dump\<close> of a value writes a text that decodes to it. The
  file system maps the path of every existing file to its content; the environment maps
  variable names to values. Directories are not represented: opening a file for writing
  always succeeds here, where \<open>open\<close> raises for a path whose directory is missing, and
  then nothing is written.
\<close>

datatype file_content = Undecodable | Json pyval

type_synonym fs = "string \<rightharpoonup> file_content"

type_synonym env = "string \<rightharpoonup> string"

definition getenv :: "env \<Rightarrow> string \<Rightarrow> string \<Rightarrow> string" where
  "getenv e name dflt = (case e name of Some v \<Rightarrow> v | None \<Rightarrow> dflt)"

text \<open>\<open>os.path.join\<close> of two components on a POSIX system.\<close>

definition path_join :: "string \<Rightarrow> string \<Rightarrow> string" where
  "path_join a b =
     (if starts_with ''/'' b then b
      else if a = [] \<or> last a = CHR ''/'' then a @ b
      else a @ ''/'' @ b)"

text \<open>
  \<open>main\<close> of gather_events.py from the first page on, with \<open>max_pages\<close> the integer read
  from the configuration: paginate, enrich, write the array twice.
\<close>

definition gather_main ::
  "(string \<Rightarrow> string option) \<Rightarrow> web \<Rightarrow> env \<Rightarrow> int \<Rightarrow> page \<Rightarrow> fs \<Rightarrow> error + fs" where
  "gather_main fmt w e max_pages first_page files =
     (let all_events = all_events (paginate fmt max_pages (start first_page))
      in case details_loop w all_events [] of
           Inl err \<Rightarrow> Inl err
         | Inr all_events_details \<Rightarrow>
             let json_output = Json (PList (map PDict all_events_details));
                 output_file = getenv e ''OUTPUT_FILE'' ''output.json'';
                 files = files(output_file \<mapsto> json_output);
                 base_output_dir = getenv e ''DATA_OUTPUT'' ''data_output'';
                 cache_dir = path_join base_output_dir ''cache'';
                 cache_file = path_join cache_dir ''cache_output.json''
             in Inr (files(cache_file \<mapsto> json_output)))"


section \<open>The ranking cache (rate_events.py)\<close>

definition json_load :: "file_content \<Rightarrow> error + pyval" where
  "json_load c = (case c of Undecodable \<Rightarrow> Inl JSONDecodeError | Json v \<Rightarrow> Inr v)"

definition load_ranking_cache :: "env \<Rightarrow> fs \<Rightarrow> error + pyval" where
  "load_ranking_cache e files =
     (let base_output_dir = getenv e ''DATA_OUTPUT'' ''data_output'';
          cache_file = path_join (path_join base_output_dir ''cache'') ''ranking_cache.json''
      in case files cache_file of
           Some c \<Rightarrow> json_load c
         | None \<Rightarrow> Inr (PDict []))"

definition store_ranking_cache :: "env \<Rightarrow> pyval \<Rightarrow> fs \<Rightarrow> fs" where
  "store_ranking_cache e cache files =
     (let base_output_dir = getenv e ''DATA_OUTPUT'' ''data_output'';
          cache_dir = path_join base_output_dir ''cache'';
          cache_file = path_join cache_dir ''ranking_cache.json''
      in files(cache_file \<mapsto> Json cache))"

text \<open>The path that both functions compute for the cache file.\<close>

definition ranking_cache_path :: "env \<Rightarrow> string" where
  "ranking_cache_path e =
     path_join (path_join (getenv e ''DATA_OUTPUT'' ''data_output'') ''cache'') ''ranking_cache.json''"

text \<open>
  \<open>k in c\<close>, \<open>c[k]\<close> and \<open>c[k] = v\<close> for a string \<open>k\<close>, on whatever object the cache file
  decoded to: a dictionary is searched by key, a list by element, a string by substring,
  and nothing else supports \<open>in\<close>; only a dictionary can be subscripted by a string.
\<close>

definition py_in :: "string \<Rightarrow> pyval \<Rightarrow> error + bool" where
  "py_in k c =
     (case c of
        PDict d \<Rightarrow> Inr (k \<in> set (map fst d))
      | PList xs \<Rightarrow> Inr (PStr k \<in> set xs)
      | PStr s \<Rightarrow> Inr (contains k s)
      | _ \<Rightarrow> Inl TypeError)"

definition py_getitem :: "pyval \<Rightarrow> string \<Rightarrow> error + pyval" where
  "py_getitem c k =
     (case c of
        PDict d \<Rightarrow> (case map_of d k of Some v \<Rightarrow> Inr v | None \<Rightarrow> Inl KeyError)
      | _ \<Rightarrow> Inl TypeError)"

definition py_setitem :: "pyval \<Rightarrow> string \<Rightarrow> pyval \<Rightarrow> error + pyval" where
  "py_setitem c k v =
     (case c of
        PDict d \<Rightarrow> Inr (PDict (AList.update k v d))
      | _ \<Rightarrow> Inl TypeError)"

section \<open>The ranking resolver (rate_events.py, get_core_ranking)\<close>

text \<open>
  What the browser gives during one lookup on the ranking portal: whether
  \<open>driver.get(search_url)\<close> returns, whether the search box and the submit button are
  there within the wait, and the results table (\<open>None\<close> when the wait for it times out):
  its text and its rows of class \<open>evenrow\<close> or \<open>oddrow\<close>. A row has the texts of its
  \<open>td\<close> children and the anchor in its sixth cell, if any, with its \<open>href\<close>.
\<close>

datatype result_row = ResultRow (row_tds: "string list") (row_dblp: "string option option")

record lookup =
  page_loads :: bool
  search_box :: bool
  submit_button :: bool
  results_table :: "(string \<times> result_row list) option"

definition default_result :: dict where
  "default_result =
     [(''title'', PStr ''N/A''),
      (''acronym'', PStr ''N/A''),
      (''source'', PStr ''N/A''),
      (''rank'', PStr ''Unranked''),
      (''note'', PStr ''N/A''),
      (''dblp_link'', PStr ''N/A''),
      (''primary_for'', PStr ''N/A''),
      (''comments'', PStr ''N/A''),
      (''average_rating'', PStr ''N/A''),
      (''found'', PBool False)]"

text \<open>\<open>first_row.find_element(By.XPATH, "./td[k]").text.strip()\<close>; \<open>None\<close> when there is
  no such cell and \<open>find_element\<close> raises.\<close>

definition td_text :: "result_row \<Rightarrow> nat \<Rightarrow> string option" where
  "td_text r k =
     (if 1 \<le> k \<and> k \<le> length (row_tds r) then Some (strip (row_tds r ! (k - 1))) else None)"

text \<open>The dictionary literal passed to \<open>result.update\<close>; it is built before the update, so
  a missing cell leaves \<open>result\<close> as it was.\<close>

definition first_row_fields :: "result_row \<Rightarrow> dict option" where
  "first_row_fields r =
     do {
       title \<leftarrow> td_text r 1;
       acronym \<leftarrow> td_text r 2;
       source \<leftarrow> td_text r 3;
       rank \<leftarrow> td_text r 4;
       note \<leftarrow> td_text r 5;
       primary_for \<leftarrow> td_text r 7;
       comments \<leftarrow> td_text r 8;
       average_rating \<leftarrow> td_text r 9;
       Some [(''title'', PStr title),
             (''acronym'', PStr acronym),
             (''source'', PStr source),
             (''rank'', PStr rank),
             (''note'', PStr note),
             (''primary_for'', PStr primary_for),
             (''comments'', PStr comments),
             (''average_rating'', PStr average_rating),
             (''found'', PBool True)]
     }"

text \<open>
  \<open>get_core_ranking\<close>, with the portal as it answers at the time of the call. The page
  load stands before the \<open>try\<close>, so its exception leaves the function; every failure
  inside the \<open>try\<close> returns \<open>result\<close> as it is then.
\<close>

definition get_core_ranking :: "(string \<Rightarrow> lookup) \<Rightarrow> string \<Rightarrow> error + dict" where
  "get_core_ranking portal conference_name =
     (let session = portal conference_name;
          result = default_result
      in if \<not> page_loads session then Inl WebDriverException
         else if \<not> search_box session then Inr result
         else if \<not> submit_button session then Inr result
         else (case results_table session of
                 None \<Rightarrow> Inr result
               | Some (table_text, rows) \<Rightarrow>
                   if contains ''0 Results found.'' table_text then Inr result
                   else (case rows of
                           [] \<Rightarrow> Inr result
                         | first_row # _ \<Rightarrow>
                             (case first_row_fields first_row of
                                None \<Rightarrow> Inr result
                              | Some row_fields \<Rightarrow>
                                  let result = dict_merge result row_fields
                                  in (case row_dblp first_row of
                                        Some href \<Rightarrow>
                                          Inr (AList.update ''dblp_link''
                                                 (case href of Some h \<Rightarrow> PStr h | None \<Rightarrow> PNone)
                                                 result)
                                      | None \<Rightarrow> Inr result)))))"

section \<open>The enrichment loop (rate_events.py, enrich_conferences)\<close>

definition extract_conference_name :: "dict \<Rightarrow> error + string" where
  "extract_conference_name conf =
     (let title = (case map_of conf ''page_title'' of Some v \<Rightarrow> v | None \<Rightarrow> PStr [])
      in if truthy title
         then (case title of
                 PStr t \<Rightarrow>
                   let parts = split_on CHR '' '' t
                   in Inr (if 1 < length parts then strip (parts ! 0) else strip t)
               | _ \<Rightarrow> Inl AttributeError)
         else (case (case map_of conf ''event_name'' of Some v \<Rightarrow> v | None \<Rightarrow> PStr []) of
                 PStr n \<Rightarrow> Inr (hd (split_on CHR '' '' n))
               | _ \<Rightarrow> Inl AttributeError))"

text \<open>
  The state of the loop: the conferences already given their \<open>core_data\<close>, the cache
  object, the file system, the names sent to the resolver so far (a ghost log), and the
  exception that ended the loop, if any. The portal is a function of the number of
  lookups made before, so that it may answer the same name differently later on.
\<close>

record enrich_state =
  done_confs :: "dict list"
  ranking_cache :: pyval
  disk :: fs
  lookups :: "string list"
  raised :: "error option"

definition enrich_step ::
  "(nat \<Rightarrow> string \<Rightarrow> lookup) \<Rightarrow> env \<Rightarrow> dict \<Rightarrow> enrich_state \<Rightarrow> enrich_state" where
  "enrich_step world e conf s =
     (case extract_conference_name conf of
        Inl err \<Rightarrow> s\<lparr>raised := Some err\<rparr>
      | Inr conf_name \<Rightarrow>
          (case py_in conf_name (ranking_cache s) of
             Inl err \<Rightarrow> s\<lparr>raised := Some err\<rparr>
           | Inr True \<Rightarrow>
               (case py_getitem (ranking_cache s) conf_name of
                  Inl err \<Rightarrow> s\<lparr>raised := Some err\<rparr>
                | Inr v \<Rightarrow> s\<lparr>done_confs := done_confs s @ [AList.update ''core_data'' v conf]\<rparr>)
           | Inr False \<Rightarrow>
               (case get_core_ranking (world (length (lookups s))) conf_name of
                  Inl err \<Rightarrow> s\<lparr>lookups := lookups s @ [conf_name], raised := Some err\<rparr>
                | Inr core_data \<Rightarrow>
                    (case py_setitem (ranking_cache s) conf_name (PDict core_data) of
                       Inl err \<Rightarrow> s\<lparr>lookups := lookups s @ [conf_name], raised := Some err\<rparr>
                     | Inr cache \<Rightarrow>
                         s\<lparr>done_confs :=
                             done_confs s @ [AList.update ''core_data'' (PDict core_data) conf],
                           ranking_cache := cache,
                           disk := store_ranking_cache e cache (disk s),
                           lookups := lookups s @ [conf_name]\<rparr>))))"

fun enrich_loop ::
  "(nat \<Rightarrow> string \<Rightarrow> lookup) \<Rightarrow> env \<Rightarrow> dict list \<Rightarrow> enrich_state \<Rightarrow> enrich_state" where
  "enrich_loop world e [] s = s"
| "enrich_loop world e (conf # rest) s =
     (let s' = enrich_step world e conf s
      in case raised s' of
           Some err \<Rightarrow> s'
         | None \<Rightarrow> enrich_loop world e rest s')"

text \<open>
  \<open>enrich_conferences\<close> on the decoded list of conferences: load the cache
  (\<open>load_ranking_cache() or {}\<close>), run the loop, store the cache once more and write the
  enriched list. An exception ends the run where it is raised.
\<close>

definition enrich_conferences ::
  "(nat \<Rightarrow> string \<Rightarrow> lookup) \<Rightarrow> env \<Rightarrow> dict list \<Rightarrow> string \<Rightarrow> fs \<Rightarrow> enrich_state" where
  "enrich_conferences world e conferences output_path files =
     (case load_ranking_cache e files of
        Inl err \<Rightarrow>
          \<lparr>done_confs = [], ranking_cache = PNone, disk = files, lookups = [],
           raised = Some err\<rparr>
      | Inr loaded \<Rightarrow>
          let cache = (if truthy loaded then loaded else PDict []);
              s = enrich_loop world e conferences
                    \<lparr>done_confs = [], ranking_cache = cache, disk = files, lookups = [],
                     raised = None\<rparr>
          in case raised s of
               Some err \<Rightarrow> s
             | None \<Rightarrow>
                 s\<lparr>disk := (store_ranking_cache e (ranking_cache s) (disk s))
                             (output_path \<mapsto> Json (PList (map PDict (done_confs s))))\<rparr>)"


section \<open>The record extractor: proofs\<close>

declare rows_loop.simps [simp del]

lemma length_pair_rows: "length (pair_rows prs) = 2 * length prs"
  by (induction prs) (auto simp: pair_rows_def)

lemma pair_rows_Cons: "pair_rows ((r1, r2) # prs) = r1 # r2 # pair_rows prs"
  by (simp add: pair_rows_def)

lemma rows_loop_pairs:
  assumes "\<forall>(r1, r2) \<in> set prs. 2 \<le> length r1"
  shows "rows_loop fmt (pre @ pair_rows prs) (length pre) acc =
         acc @ map (\<lambda>(r1, r2). event_data fmt r1 (Some r2)) prs"
  using assms
proof (induction prs arbitrary: pre acc)
  case Nil
  show ?case
    by (subst rows_loop.simps) (simp add: pair_rows_def)
next
  case (Cons pr prs)
  obtain r1 r2 where pr: "pr = (r1, r2)" by (cases pr)
  from Cons.prems pr have len: "2 \<le> length r1" and rest: "\<forall>(r1, r2) \<in> set prs. 2 \<le> length r1"
    by auto
  have rows: "pre @ pair_rows (pr # prs) = (pre @ [r1, r2]) @ pair_rows prs"
    by (simp add: pr pair_rows_Cons)
  have rec: "process_record fmt (pre @ pair_rows (pr # prs)) (length pre) =
             Some (event_data fmt r1 (Some r2))"
    using len by (simp add: process_record_def pr pair_rows_Cons nth_append)
  have "rows_loop fmt (pre @ pair_rows (pr # prs)) (length pre) acc =
        rows_loop fmt ((pre @ [r1, r2]) @ pair_rows prs) (length (pre @ [r1, r2]))
          (acc @ [event_data fmt r1 (Some r2)])"
    by (subst rows_loop.simps) (simp add: rec, simp add: pr pair_rows_Cons)
  also have "\<dots> = (acc @ [event_data fmt r1 (Some r2)]) @
                   map (\<lambda>(r1, r2). event_data fmt r1 (Some r2)) prs"
    by (rule Cons.IH [OF rest])
  finally show ?case by (simp add: pr)
qed

text \<open>
  Claim C2. On a listing page whose located table is a header row followed only by
  two-row records whose first row has at least two cells, the extractor returns one
  record for each pair, in the order of the rows, and so \<open>(rowCount - 1) div 2\<close> records.
\<close>

theorem process_data_table_well_formed_pairs:
  assumes "page_table p = Some (hdr # pair_rows prs)"
    and "\<forall>(r1, r2) \<in> set prs. 2 \<le> length r1"
  shows "process_data_table fmt p = map (\<lambda>(r1, r2). event_data fmt r1 (Some r2)) prs
       \<and> length (process_data_table fmt p) = (length (hdr # pair_rows prs) - 1) div 2"
proof -
  have loop: "rows_loop fmt (hdr # pair_rows prs) 1 [] =
              map (\<lambda>(r1, r2). event_data fmt r1 (Some r2)) prs"
    using rows_loop_pairs [OF assms(2), of fmt "[hdr]" "[]"] by simp
  have main: "process_data_table fmt p = map (\<lambda>(r1, r2). event_data fmt r1 (Some r2)) prs"
  proof (cases "length (hdr # pair_rows prs) < 3")
    case True
    then have "prs = []" by (simp add: length_pair_rows)
    then show ?thesis by (simp add: process_data_table_def assms(1) pair_rows_def)
  next
    case False
    then show ?thesis using loop by (simp add: process_data_table_def assms(1))
  qed
  then show ?thesis by (simp add: length_pair_rows)
qed

theorem process_data_table_well_formed_pairs_witness:
  "process_data_table (\<lambda>s. None)
     (Page (Some [[Cell ''Event'' None],
        [Cell ''x'' (Some (Anchor '' ICML 2025 '' (Some ''http://a/1''))),
         Cell ''Machine learning'' None],
        [Cell ''Jul 1'' None, Cell ''Vienna'' None, Cell ''Jan 31, 2025 (Jan 24)'' None],
        [Cell '' KR '' None, Cell ''Knowledge'' None],
        [Cell ''Nov 2'' None, Cell ''Hanoi'' None]]) None)
   = [[(''event_name'', PStr ''ICML 2025''), (''description'', PStr ''Machine learning''),
       (''link'', PStr ''http://a/1''), (''when'', PStr ''Jul 1''), (''where'', PStr ''Vienna''),
       (''deadline'', PStr ''Jan 31, 2025'')],
      [(''event_name'', PStr ''KR''), (''description'', PStr ''Knowledge''),
       (''link'', PStr ''N/A''), (''when'', PStr ''N/A''), (''where'', PStr ''N/A''),
       (''deadline'', PStr ''N/A'')]]"
  using process_data_table_well_formed_pairs [of
     "Page (Some [[Cell ''Event'' None],
        [Cell ''x'' (Some (Anchor '' ICML 2025 '' (Some ''http://a/1''))),
         Cell ''Machine learning'' None],
        [Cell ''Jul 1'' None, Cell ''Vienna'' None, Cell ''Jan 31, 2025 (Jan 24)'' None],
        [Cell '' KR '' None, Cell ''Knowledge'' None],
        [Cell ''Nov 2'' None, Cell ''Hanoi'' None]]) None"
     "[Cell ''Event'' None]"
     "[([Cell ''x'' (Some (Anchor '' ICML 2025 '' (Some ''http://a/1''))),
         Cell ''Machine learning'' None],
        [Cell ''Jul 1'' None, Cell ''Vienna'' None, Cell ''Jan 31, 2025 (Jan 24)'' None]),
       ([Cell '' KR '' None, Cell ''Knowledge'' None],
        [Cell ''Nov 2'' None, Cell ''Hanoi'' None])]"
     "\<lambda>s. None"]
  by (simp add: pair_rows_def event_data_def name_and_link_def when_where_deadline_def
       format_deadline_def strip_def split_first_def is_space_def)

lemma upt_halves: "i < n \<Longrightarrow> [0..<(n - i + 1) div 2] = 0 # map Suc [0..<(n - (i + 2) + 1) div 2]"
proof -
  assume "i < n"
  then have "(n - i + 1) div 2 = Suc ((n - (i + 2) + 1) div 2)" by presburger
  then show ?thesis by (simp add: upt_conv_Cons map_Suc_upt del: upt_Suc)
qed

lemma idx_unfold:
  assumes "i < n"
  shows "map (\<lambda>k. i + 2 * k) [0..<(n - i + 1) div 2] =
               i # map (\<lambda>k. (i + 2) + 2 * k) [0..<(n - (i + 2) + 1) div 2]"
proof -
  have "map (\<lambda>k. i + 2 * k) [0..<(n - i + 1) div 2] =
        map (\<lambda>k. i + 2 * k) (0 # map Suc [0..<(n - (i + 2) + 1) div 2])"
    by (simp only: upt_halves [OF assms])
  also have "\<dots> = i # map (\<lambda>k. (i + 2) + 2 * k) [0..<(n - (i + 2) + 1) div 2]"
    by (simp add: comp_def del: upt_Suc)
  finally show ?thesis .
qed

lemma rows_loop_map_filter:
  "rows_loop fmt rows i acc =
   acc @ List.map_filter (process_record fmt rows) (map (\<lambda>k. i + 2 * k) [0..<(length rows - i + 1) div 2])"
proof (induction fmt rows i acc rule: rows_loop.induct)
  case (1 fmt rows i events)
  show ?case
  proof (cases "i < length rows")
    case True
    have step: "rows_loop fmt rows i events =
        rows_loop fmt rows (i + 2)
          (case process_record fmt rows i of None \<Rightarrow> events | Some e \<Rightarrow> events @ [e])"
      by (subst rows_loop.simps) (simp only: True if_True)
    show ?thesis
      unfolding step "1.IH" [OF True] idx_unfold [OF True]
      by (cases "process_record fmt rows i") simp_all
  next
    case False
    then have "(length rows - i + 1) div 2 = 0" by simp
    moreover have "rows_loop fmt rows i events = events"
      by (subst rows_loop.simps) (simp only: False if_False)
    ultimately show ?thesis by simp
  qed
qed

lemma event_data_keys:
  "map fst (event_data fmt c1 r2) =
   [''event_name'', ''description'', ''link'', ''when'', ''where'', ''deadline'']"
  by (simp add: event_data_def Let_def case_prod_beta)

lemma event_data_absent:
  "r2 = None \<or> (\<exists>c2. r2 = Some c2 \<and> length c2 < 3) \<Longrightarrow>
   map_of (event_data fmt c1 r2) ''when'' = Some (PStr ''N/A'') \<and>
   map_of (event_data fmt c1 r2) ''where'' = Some (PStr ''N/A'') \<and>
   map_of (event_data fmt c1 r2) ''deadline'' = Some (PStr ''N/A'')"
  by (auto simp: event_data_def when_where_deadline_def Let_def case_prod_beta)

text \<open>
  Claim C3, as the code has it. The extractor returns, in row order, the records of the
  odd rows \<open>1, 3, ...\<close> whose first row has at least two cells; a pair whose first row
  has fewer than two cells gives no record (the \<open>continue\<close>); a pair whose first row has
  at least two cells, and whose second row is missing or has fewer than three cells, gives
  a record with its name, description and link and with "N/A" for \<open>when\<close>, \<open>where\<close>
  and \<open>deadline\<close>.
\<close>

theorem process_data_table_short_pairs:
  assumes "page_table p = Some rows" and "3 \<le> length rows"
  shows "process_data_table fmt p =
           List.map_filter (process_record fmt rows) (map (\<lambda>k. 2 * k + 1) [0..<length rows div 2])
       \<and> (\<forall>i. length (rows ! i) < 2 \<longrightarrow> process_record fmt rows i = None)
       \<and> (\<forall>i. 2 \<le> length (rows ! i) \<and> (length rows \<le> i + 1 \<or> length (rows ! (i + 1)) < 3) \<longrightarrow>
            (\<exists>e. process_record fmt rows i = Some e
               \<and> map fst e = [''event_name'', ''description'', ''link'', ''when'', ''where'', ''deadline'']
               \<and> map_of e ''event_name'' = Some (PStr (fst (name_and_link (rows ! i ! 0))))
               \<and> map_of e ''description'' = Some (PStr (strip (cell_text (rows ! i ! 1))))
               \<and> map_of e ''link'' = Some (snd (name_and_link (rows ! i ! 0)))
               \<and> map_of e ''when'' = Some (PStr ''N/A'')
               \<and> map_of e ''where'' = Some (PStr ''N/A'')
               \<and> map_of e ''deadline'' = Some (PStr ''N/A'')))"
proof (intro conjI allI impI)
  have "(length rows - 1 + 1) div 2 = length rows div 2" using assms(2) by simp
  then show "process_data_table fmt p =
      List.map_filter (process_record fmt rows) (map (\<lambda>k. 2 * k + 1) [0..<length rows div 2])"
    using assms rows_loop_map_filter [of fmt rows 1 "[]"]
    by (simp add: process_data_table_def add.commute)
next
  fix i assume "length (rows ! i) < 2"
  then show "process_record fmt rows i = None" by (simp add: process_record_def)
next
  fix i
  assume h: "2 \<le> length (rows ! i) \<and> (length rows \<le> i + 1 \<or> length (rows ! (i + 1)) < 3)"
  let ?r2 = "if i + 1 < length rows then Some (rows ! (i + 1)) else None"
  have abs: "?r2 = None \<or> (\<exists>c2. ?r2 = Some c2 \<and> length c2 < 3)" using h by auto
  have rec: "process_record fmt rows i = Some (event_data fmt (rows ! i) ?r2)"
    using h by (simp add: process_record_def)
  have fields: "map_of (event_data fmt (rows ! i) ?r2) ''event_name'' = Some (PStr (fst (name_and_link (rows ! i ! 0))))
     \<and> map_of (event_data fmt (rows ! i) ?r2) ''description'' = Some (PStr (strip (cell_text (rows ! i ! 1))))
     \<and> map_of (event_data fmt (rows ! i) ?r2) ''link'' = Some (snd (name_and_link (rows ! i ! 0)))"
    using h by (simp add: event_data_def Let_def case_prod_beta)
  note ab = event_data_absent [OF abs, of fmt "rows ! i"]
  show "\<exists>e. process_record fmt rows i = Some e
               \<and> map fst e = [''event_name'', ''description'', ''link'', ''when'', ''where'', ''deadline'']
               \<and> map_of e ''event_name'' = Some (PStr (fst (name_and_link (rows ! i ! 0))))
               \<and> map_of e ''description'' = Some (PStr (strip (cell_text (rows ! i ! 1))))
               \<and> map_of e ''link'' = Some (snd (name_and_link (rows ! i ! 0)))
               \<and> map_of e ''when'' = Some (PStr ''N/A'')
               \<and> map_of e ''where'' = Some (PStr ''N/A'')
               \<and> map_of e ''deadline'' = Some (PStr ''N/A'')"
  proof (intro exI [of _ "event_data fmt (rows ! i) ?r2"] conjI)
    show "process_record fmt rows i = Some (event_data fmt (rows ! i) ?r2)" by (rule rec)
    show "map fst (event_data fmt (rows ! i) ?r2) =
          [''event_name'', ''description'', ''link'', ''when'', ''where'', ''deadline'']"
      by (rule event_data_keys)
  qed (use fields ab in blast)+
qed


theorem process_data_table_short_pairs_witness:
  "process_data_table (\<lambda>s. None)
     (Page (Some [[Cell ''Event'' None],
                  [Cell ''ICML'' None, Cell ''Learning'' None],
                  [Cell ''Jul 1'' None],
                  [Cell ''KR'' None],
                  [Cell ''Nov 2'' None, Cell ''Hanoi'' None, Cell ''TBD'' None],
                  [Cell ''AAAI'' None, Cell ''AI'' None]]) None)
   = [[(''event_name'', PStr ''ICML''), (''description'', PStr ''Learning''),
       (''link'', PStr ''N/A''), (''when'', PStr ''N/A''), (''where'', PStr ''N/A''),
       (''deadline'', PStr ''N/A'')],
      [(''event_name'', PStr ''AAAI''), (''description'', PStr ''AI''),
       (''link'', PStr ''N/A''), (''when'', PStr ''N/A''), (''where'', PStr ''N/A''),
       (''deadline'', PStr ''N/A'')]]"
  using process_data_table_short_pairs [of
     "Page (Some [[Cell ''Event'' None],
                  [Cell ''ICML'' None, Cell ''Learning'' None],
                  [Cell ''Jul 1'' None],
                  [Cell ''KR'' None],
                  [Cell ''Nov 2'' None, Cell ''Hanoi'' None, Cell ''TBD'' None],
                  [Cell ''AAAI'' None, Cell ''AI'' None]]) None"
     "[[Cell ''Event'' None],
                  [Cell ''ICML'' None, Cell ''Learning'' None],
                  [Cell ''Jul 1'' None],
                  [Cell ''KR'' None],
                  [Cell ''Nov 2'' None, Cell ''Hanoi'' None, Cell ''TBD'' None],
                  [Cell ''AAAI'' None, Cell ''AI'' None]]"
     "\<lambda>s. None"]
  by (simp add: process_record_def event_data_def name_and_link_def when_where_deadline_def
        strip_def is_space_def upt_rec_numeral)

text \<open>
  Claim C3 as stated fails where the first row of a pair has fewer than two cells (so
  fewer than three): that pair gives no record at all.
\<close>

theorem process_data_table_short_first_row_counterexample:
  "process_data_table (\<lambda>s. None)
     (Page (Some [[Cell ''Event'' None],
                  [Cell ''ICML 2025'' None],
                  [Cell ''Jul 1'' None, Cell ''Vienna'' None, Cell ''Jan 31, 2025'' None]]) None) = []"
  by (simp add: process_data_table_def rows_loop.simps process_record_def)

section \<open>Pagination: proofs\<close>

declare paginate.simps [simp del]

lemma chain_unfold:
  "chain p = p # (case next_link p of None \<Rightarrow> [] | Some q \<Rightarrow> chain q)"
  by (cases p rule: chain.cases) simp_all

lemma paginate_visits:
  assumes "m = nat (max 1 (C - page_count s))" and "m \<le> length (chain (driver s))"
  shows "paginate fmt C s =
         \<lparr>page_count = page_count s + int m,
          all_events = all_events s @ concat (map (process_data_table fmt) (take m (chain (driver s)))),
          driver = chain (driver s) ! (m - 1),
          clicks = clicks s + (m - 1)\<rparr>"
  using assms
proof (induction m arbitrary: s)
  case 0
  then show ?case by simp
next
  case (Suc k)
  show ?case
  proof (cases "C \<le> page_count s + 1")
    case True
    with Suc.prems(1) have k: "k = 0" by simp
    have "paginate fmt C s = visit fmt s"
      using True by (subst paginate.simps) (simp add: visit_def)
    then show ?thesis
      by (simp add: k visit_def chain_unfold [of "driver s"])
  next
    case False
    with Suc.prems(1) have k: "k = nat (max 1 (C - (page_count s + 1)))" by simp
    from False k have kpos: "0 < k" by simp
    from Suc.prems(2) kpos obtain q where q: "next_link (driver s) = Some q"
      by (cases "next_link (driver s)") (simp_all add: chain_unfold [of "driver s"])
    have ch: "chain (driver s) = driver s # chain q"
      by (simp add: chain_unfold [of "driver s"] q)
    let ?s' = "advance (visit fmt s)"
    have s': "page_count ?s' = page_count s + 1" "driver ?s' = q"
      "all_events ?s' = all_events s @ process_data_table fmt (driver s)"
      "clicks ?s' = clicks s + 1"
      by (simp_all add: advance_def visit_def click_next_page_def q)
    have step: "paginate fmt C s = paginate fmt C ?s'"
      using False by (subst paginate.simps) (simp add: visit_def click_next_page_def q)
    have len: "k \<le> length (chain (driver ?s'))"
      using Suc.prems(2) by (simp add: ch s')
    have k': "k = nat (max 1 (C - page_count ?s'))" using k by (simp add: s')
    obtain j where j: "k = Suc j" using kpos by (cases k) auto
    show ?thesis
      unfolding step Suc.IH [OF k' len]
      by (simp add: s' ch j)
  qed
qed

text \<open>
  Claim C1, as the code has it. The loop counts and extracts a page before it tests the
  ceiling, so with a ceiling \<open>C\<close> below the number of chained pages it visits
  \<open>max 1 C\<close> pages: \<open>C\<close> pages when \<open>1 \<le> C\<close>, one page otherwise. The events are
  those of the first \<open>max 1 C\<close> pages in order, \<open>click_next_page\<close> is called one time
  fewer than pages are visited, and the driver stops on the last visited page although
  that page has a "next" link.
\<close>

theorem paginate_stops_at_ceiling:
  assumes "C < int (length (chain p))"
  shows "page_count (paginate fmt C (start p)) = max 1 C
       \<and> all_events (paginate fmt C (start p)) =
           concat (map (process_data_table fmt) (take (nat (max 1 C)) (chain p)))
       \<and> clicks (paginate fmt C (start p)) = nat (max 1 C) - 1
       \<and> driver (paginate fmt C (start p)) = chain p ! (nat (max 1 C) - 1)
       \<and> (1 \<le> C \<longrightarrow> next_link (driver (paginate fmt C (start p))) \<noteq> None)"
proof -
  have ne: "chain p \<noteq> []" by (subst chain_unfold) simp
  have m: "nat (max 1 C) \<le> length (chain p)"
    using assms ne by (cases "chain p") auto
  have r: "paginate fmt C (start p) =
         \<lparr>page_count = int (nat (max 1 C)),
          all_events = concat (map (process_data_table fmt) (take (nat (max 1 C)) (chain p))),
          driver = chain p ! (nat (max 1 C) - 1),
          clicks = nat (max 1 C) - 1\<rparr>"
    using paginate_visits [of "nat (max 1 C)" C "start p" fmt] m
    by (simp add: start_def)
  have nxt: "next_link (chain p ! i) \<noteq> None" if "Suc i < length (chain p)" for i
    using that
  proof (induction i arbitrary: p)
    case 0
    then show ?case
      by (cases "next_link p") (simp_all add: chain_unfold [of p])
  next
    case (Suc i)
    then show ?case
      by (cases "next_link p") (simp_all add: chain_unfold [of p])
  qed
  have "1 \<le> C \<Longrightarrow> next_link (chain p ! (nat (max 1 C) - 1)) \<noteq> None"
    using assms by (intro nxt) auto
  then show ?thesis by (simp add: r)
qed

theorem paginate_stops_at_ceiling_witness:
  "page_count (paginate (\<lambda>s. None) 2
        (start (Page None (Some (Page None (Some (Page None None))))))) = 2
   \<and> clicks (paginate (\<lambda>s. None) 2
        (start (Page None (Some (Page None (Some (Page None None))))))) = 1
   \<and> driver (paginate (\<lambda>s. None) 2
        (start (Page None (Some (Page None (Some (Page None None))))))) = Page None (Some (Page None None))
   \<and> all_events (paginate (\<lambda>s. None) 2
        (start (Page None (Some (Page None (Some (Page None None))))))) = []"
  using paginate_stops_at_ceiling [of 2 "Page None (Some (Page None (Some (Page None None))))" "\<lambda>s. None"]
  by (simp add: process_data_table_def)

text \<open>
  Claim C1 as stated fails at the ceiling \<open>0\<close>: with three chained pages, one page is
  visited, not none.
\<close>

theorem paginate_zero_ceiling_counterexample:
  "(0::int) < int (length (chain (Page None (Some (Page None (Some (Page None None)))))))
   \<and> page_count (paginate (\<lambda>s. None) 0
        (start (Page None (Some (Page None (Some (Page None None))))))) = 1"
  by (simp add: paginate.simps start_def visit_def)

section \<open>The detail enricher: proofs\<close>

declare show_nat.simps [simp del]

text \<open>
  Assignments that all succeed are all stored; when one raises, the result is what was
  stored before it, with the message under \<open>error\<close>, whatever the position.
\<close>

lemma assign_all_stored:
  "assign_all (map (\<lambda>(k, v). (k, Inr v)) kvs) details =
   fold (\<lambda>(k, v). AList.update k v) kvs details"
  by (induction kvs arbitrary: details) auto

lemma assign_all_raises:
  "assign_all (map (\<lambda>(k, v). (k, Inr v)) kvs @ (key, Inl msg) # rest) details =
   AList.update ''error'' (PStr msg) (fold (\<lambda>(k, v). AList.update k v) kvs details)"
  by (induction kvs arbitrary: details) auto

lemma scrape_failed:
  "w url = Inl msg \<Longrightarrow> scrape_event_details w url = [(''error'', PStr msg)]"
  by (simp add: scrape_event_details_def)

lemma scrape_completed:
  assumes "w url = Inr pg" and "\<forall>ds. pages_match pg = Some ds \<longrightarrow> length ds \<le> 4300"
  shows "scrape_event_details w url =
     [(''page_title'', page_title_of pg),
      (''meta_description'', meta_description_of pg),
      (''detailed_deadline'', or_na (deadline_match pg)),
      (''review_time'', or_na (review_match pg)),
      (''conference_rank'', or_na (rank_match pg)),
      (''is_workshop'', PBool (workshop_text pg)),
      (''minimum_pages'',
         (case pages_match pg of
            Some ds \<Rightarrow> PInt (int (nat_of_digits ds))
          | None \<Rightarrow> PStr ''N/A'')),
      (''website_link'', website_link_of pg),
      (''categories'', categories_of pg)]"
proof (cases "pages_match pg")
  case None
  then show ?thesis
    by (simp add: scrape_event_details_def assms(1) detail_assignments_def minimum_pages_of_def)
next
  case (Some ds)
  with assms(2) have "\<not> 4300 < length ds" by auto
  with Some show ?thesis
    by (simp add: scrape_event_details_def assms(1) detail_assignments_def minimum_pages_of_def
          py_int_def)
qed

lemma scrape_pages_raise:
  assumes "w url = Inr pg" and "pages_match pg = Some ds" and "4300 < length ds"
  shows "scrape_event_details w url =
     [(''page_title'', page_title_of pg),
      (''meta_description'', meta_description_of pg),
      (''detailed_deadline'', or_na (deadline_match pg)),
      (''review_time'', or_na (review_match pg)),
      (''conference_rank'', or_na (rank_match pg)),
      (''is_workshop'', PBool (workshop_text pg)),
      (''error'', PStr (int_limit_message (length ds)))]"
  using assms
  by (simp add: scrape_event_details_def detail_assignments_def minimum_pages_of_def py_int_def)

lemma scrape_first_six:
  assumes "w url = Inr pg"
  shows "map_of (scrape_event_details w url) ''page_title'' = Some (page_title_of pg)
       \<and> map_of (scrape_event_details w url) ''meta_description'' = Some (meta_description_of pg)
       \<and> map_of (scrape_event_details w url) ''detailed_deadline'' = Some (or_na (deadline_match pg))
       \<and> map_of (scrape_event_details w url) ''review_time'' = Some (or_na (review_match pg))
       \<and> map_of (scrape_event_details w url) ''conference_rank'' = Some (or_na (rank_match pg))
       \<and> map_of (scrape_event_details w url) ''is_workshop'' = Some (PBool (workshop_text pg))"
proof (cases "\<forall>ds. pages_match pg = Some ds \<longrightarrow> length ds \<le> 4300")
  case True
  show ?thesis
    by (simp add: scrape_completed [of w url pg, OF assms True])
next
  case False
  then obtain ds where "pages_match pg = Some ds" and "4300 < length ds" by auto
  then show ?thesis
    by (simp add: scrape_pages_raise [of w url pg ds, OF assms])
qed

lemma scrape_keys:
  "set (map fst (scrape_event_details w url)) \<subseteq> set detail_keys \<union> {''error''}"
proof (cases "w url")
  case (Inl msg)
  then show ?thesis by (simp add: scrape_failed [of w url msg])
next
  case (Inr pg)
  show ?thesis
  proof (cases "\<forall>ds. pages_match pg = Some ds \<longrightarrow> length ds \<le> 4300")
    case True
    show ?thesis
      by (simp add: scrape_completed [of w url pg, OF Inr True] detail_keys_def)
  next
    case False
    then obtain ds where "pages_match pg = Some ds" and "4300 < length ds" by auto
    then show ?thesis
      by (simp add: scrape_pages_raise [of w url pg ds, OF Inr] detail_keys_def)
  qed
qed

text \<open>
  Claim C9, as the code has it. When the page loads and every assignment succeeds, the
  attribute set has exactly the nine keys, in the order of assignment, and a field whose
  extraction finds nothing, at whatever step of the search, holds its default: "N/A" for
  the description (no \<open>meta\<close> element, no \<open>content\<close>, empty \<open>content\<close>), for the three
  labelled texts and the page number (no match) and for the website link (no "Link:"
  text, no enclosing cell, no anchor in the cell), the empty list for the categories (no
  \<open>h5\<close>, or a first \<open>h5\<close> without "Categories"), \<open>driver.title\<close> for the page title,
  which has no marker of its own; \<open>is_workshop\<close> is always a boolean. When an
  assignment raises, the attribute set holds the fields stored before it and the message
  under \<open>error\<close>, and the later fields are missing: all of them when the load raises,
  the last three when the page number has more than 4300 digits and \<open>int\<close> refuses it.
\<close>

theorem scrape_event_details_fields:
  fixes w :: web and url :: pyval
  defines "d \<equiv> scrape_event_details w url"
  shows
   "(\<forall>msg. w url = Inl msg \<longrightarrow> d = [(''error'', PStr msg)])
  \<and> (\<forall>pg. w url = Inr pg \<longrightarrow>
       ((\<forall>ds. pages_match pg = Some ds \<longrightarrow> length ds \<le> 4300) \<longrightarrow>
           map fst d = detail_keys
         \<and> (pages_match pg = None \<longrightarrow> map_of d ''minimum_pages'' = Some (PStr ''N/A''))
         \<and> (\<forall>ds. pages_match pg = Some ds \<longrightarrow>
               map_of d ''minimum_pages'' = Some (PInt (int (nat_of_digits ds))))
         \<and> (link_text pg = None \<or> link_text pg = Some None \<or> link_text pg = Some (Some None) \<longrightarrow>
               map_of d ''website_link'' = Some (PStr ''N/A''))
         \<and> (\<forall>h. link_text pg = Some (Some (Some h)) \<longrightarrow>
               map_of d ''website_link'' = Some (PStr h))
         \<and> (cat_h5 pg = None
              \<or> (\<exists>txt a_tags. cat_h5 pg = Some (txt, a_tags) \<and> \<not> contains ''Categories'' txt) \<longrightarrow>
               map_of d ''categories'' = Some (PList []))
         \<and> (\<forall>txt a_tags. cat_h5 pg = Some (txt, a_tags) \<and> contains ''Categories'' txt \<longrightarrow>
               map_of d ''categories'' =
                 Some (PList (map (\<lambda>a. PStr (get_text_strip a))
                         (filter (\<lambda>a. \<not> contains ''Categories'' (get_text a)) a_tags)))))
     \<and> (\<forall>ds. pages_match pg = Some ds \<and> 4300 < length ds \<longrightarrow>
           map fst d = keys_before_pages @ [''error'']
         \<and> map_of d ''error'' = Some (PStr (int_limit_message (length ds))))
     \<and> ((title_tag pg = None \<longrightarrow> map_of d ''page_title'' = Some (PStr (driver_title pg)))
       \<and> (\<forall>t. title_tag pg = Some t \<longrightarrow> map_of d ''page_title'' = Some (PStr (strip t)))
       \<and> (meta_desc pg = None \<or> meta_desc pg = Some None \<or> meta_desc pg = Some (Some []) \<longrightarrow>
             map_of d ''meta_description'' = Some (PStr ''N/A''))
       \<and> (\<forall>c. meta_desc pg = Some (Some c) \<and> c \<noteq> [] \<longrightarrow>
             map_of d ''meta_description'' = Some (PStr (strip c)))
       \<and> (deadline_match pg = None \<longrightarrow> map_of d ''detailed_deadline'' = Some (PStr ''N/A''))
       \<and> (\<forall>g. deadline_match pg = Some g \<longrightarrow>
             map_of d ''detailed_deadline'' = Some (PStr (strip g)))
       \<and> (review_match pg = None \<longrightarrow> map_of d ''review_time'' = Some (PStr ''N/A''))
       \<and> (\<forall>g. review_match pg = Some g \<longrightarrow> map_of d ''review_time'' = Some (PStr (strip g)))
       \<and> (rank_match pg = None \<longrightarrow> map_of d ''conference_rank'' = Some (PStr ''N/A''))
       \<and> (\<forall>g. rank_match pg = Some g \<longrightarrow>
             map_of d ''conference_rank'' = Some (PStr (strip g)))
       \<and> map_of d ''is_workshop'' = Some (PBool (workshop_text pg))))"
proof -
  have failed: "\<forall>msg. w url = Inl msg \<longrightarrow> d = [(''error'', PStr msg)]"
    unfolding d_def by (simp add: scrape_event_details_def)
  have loaded: "\<forall>pg. w url = Inr pg \<longrightarrow>
       ((\<forall>ds. pages_match pg = Some ds \<longrightarrow> length ds \<le> 4300) \<longrightarrow>
           map fst d = detail_keys
         \<and> (pages_match pg = None \<longrightarrow> map_of d ''minimum_pages'' = Some (PStr ''N/A''))
         \<and> (\<forall>ds. pages_match pg = Some ds \<longrightarrow>
               map_of d ''minimum_pages'' = Some (PInt (int (nat_of_digits ds))))
         \<and> (link_text pg = None \<or> link_text pg = Some None \<or> link_text pg = Some (Some None) \<longrightarrow>
               map_of d ''website_link'' = Some (PStr ''N/A''))
         \<and> (\<forall>h. link_text pg = Some (Some (Some h)) \<longrightarrow>
               map_of d ''website_link'' = Some (PStr h))
         \<and> (cat_h5 pg = None
              \<or> (\<exists>txt a_tags. cat_h5 pg = Some (txt, a_tags) \<and> \<not> contains ''Categories'' txt) \<longrightarrow>
               map_of d ''categories'' = Some (PList []))
         \<and> (\<forall>txt a_tags. cat_h5 pg = Some (txt, a_tags) \<and> contains ''Categories'' txt \<longrightarrow>
               map_of d ''categories'' =
                 Some (PList (map (\<lambda>a. PStr (get_text_strip a))
                         (filter (\<lambda>a. \<not> contains ''Categories'' (get_text a)) a_tags)))))
     \<and> (\<forall>ds. pages_match pg = Some ds \<and> 4300 < length ds \<longrightarrow>
           map fst d = keys_before_pages @ [''error'']
         \<and> map_of d ''error'' = Some (PStr (int_limit_message (length ds))))
     \<and> ((title_tag pg = None \<longrightarrow> map_of d ''page_title'' = Some (PStr (driver_title pg)))
       \<and> (\<forall>t. title_tag pg = Some t \<longrightarrow> map_of d ''page_title'' = Some (PStr (strip t)))
       \<and> (meta_desc pg = None \<or> meta_desc pg = Some None \<or> meta_desc pg = Some (Some []) \<longrightarrow>
             map_of d ''meta_description'' = Some (PStr ''N/A''))
       \<and> (\<forall>c. meta_desc pg = Some (Some c) \<and> c \<noteq> [] \<longrightarrow>
             map_of d ''meta_description'' = Some (PStr (strip c)))
       \<and> (deadline_match pg = None \<longrightarrow> map_of d ''detailed_deadline'' = Some (PStr ''N/A''))
       \<and> (\<forall>g. deadline_match pg = Some g \<longrightarrow>
             map_of d ''detailed_deadline'' = Some (PStr (strip g)))
       \<and> (review_match pg = None \<longrightarrow> map_of d ''review_time'' = Some (PStr ''N/A''))
       \<and> (\<forall>g. review_match pg = Some g \<longrightarrow> map_of d ''review_time'' = Some (PStr (strip g)))
       \<and> (rank_match pg = None \<longrightarrow> map_of d ''conference_rank'' = Some (PStr ''N/A''))
       \<and> (\<forall>g. rank_match pg = Some g \<longrightarrow>
             map_of d ''conference_rank'' = Some (PStr (strip g)))
       \<and> map_of d ''is_workshop'' = Some (PBool (workshop_text pg)))"
  proof (intro allI impI)
    fix pg assume pg: "w url = Inr pg"
    have complete: "(\<forall>ds. pages_match pg = Some ds \<longrightarrow> length ds \<le> 4300) \<longrightarrow>
           map fst d = detail_keys
         \<and> (pages_match pg = None \<longrightarrow> map_of d ''minimum_pages'' = Some (PStr ''N/A''))
         \<and> (\<forall>ds. pages_match pg = Some ds \<longrightarrow>
               map_of d ''minimum_pages'' = Some (PInt (int (nat_of_digits ds))))
         \<and> (link_text pg = None \<or> link_text pg = Some None \<or> link_text pg = Some (Some None) \<longrightarrow>
               map_of d ''website_link'' = Some (PStr ''N/A''))
         \<and> (\<forall>h. link_text pg = Some (Some (Some h)) \<longrightarrow>
               map_of d ''website_link'' = Some (PStr h))
         \<and> (cat_h5 pg = None
              \<or> (\<exists>txt a_tags. cat_h5 pg = Some (txt, a_tags) \<and> \<not> contains ''Categories'' txt) \<longrightarrow>
               map_of d ''categories'' = Some (PList []))
         \<and> (\<forall>txt a_tags. cat_h5 pg = Some (txt, a_tags) \<and> contains ''Categories'' txt \<longrightarrow>
               map_of d ''categories'' =
                 Some (PList (map (\<lambda>a. PStr (get_text_strip a))
                         (filter (\<lambda>a. \<not> contains ''Categories'' (get_text a)) a_tags))))"
    proof (intro impI)
      assume ok: "\<forall>ds. pages_match pg = Some ds \<longrightarrow> length ds \<le> 4300"
      note eq = scrape_completed [of w url pg, OF pg ok, folded d_def]
      have k: "map fst d = detail_keys" by (simp add: eq detail_keys_def)
      have p: "(pages_match pg = None \<longrightarrow> map_of d ''minimum_pages'' = Some (PStr ''N/A''))
         \<and> (\<forall>ds. pages_match pg = Some ds \<longrightarrow>
               map_of d ''minimum_pages'' = Some (PInt (int (nat_of_digits ds))))"
        by (simp add: eq)
      have l: "(link_text pg = None \<or> link_text pg = Some None \<or> link_text pg = Some (Some None) \<longrightarrow>
               map_of d ''website_link'' = Some (PStr ''N/A''))
         \<and> (\<forall>h. link_text pg = Some (Some (Some h)) \<longrightarrow>
               map_of d ''website_link'' = Some (PStr h))"
        by (auto simp: eq website_link_of_def)
      have c: "(cat_h5 pg = None
              \<or> (\<exists>txt a_tags. cat_h5 pg = Some (txt, a_tags) \<and> \<not> contains ''Categories'' txt) \<longrightarrow>
               map_of d ''categories'' = Some (PList []))
         \<and> (\<forall>txt a_tags. cat_h5 pg = Some (txt, a_tags) \<and> contains ''Categories'' txt \<longrightarrow>
               map_of d ''categories'' =
                 Some (PList (map (\<lambda>a. PStr (get_text_strip a))
                         (filter (\<lambda>a. \<not> contains ''Categories'' (get_text a)) a_tags))))"
        by (auto simp: eq categories_of_def)
      from k p l c show "map fst d = detail_keys
         \<and> (pages_match pg = None \<longrightarrow> map_of d ''minimum_pages'' = Some (PStr ''N/A''))
         \<and> (\<forall>ds. pages_match pg = Some ds \<longrightarrow>
               map_of d ''minimum_pages'' = Some (PInt (int (nat_of_digits ds))))
         \<and> (link_text pg = None \<or> link_text pg = Some None \<or> link_text pg = Some (Some None) \<longrightarrow>
               map_of d ''website_link'' = Some (PStr ''N/A''))
         \<and> (\<forall>h. link_text pg = Some (Some (Some h)) \<longrightarrow>
               map_of d ''website_link'' = Some (PStr h))
         \<and> (cat_h5 pg = None
              \<or> (\<exists>txt a_tags. cat_h5 pg = Some (txt, a_tags) \<and> \<not> contains ''Categories'' txt) \<longrightarrow>
               map_of d ''categories'' = Some (PList []))
         \<and> (\<forall>txt a_tags. cat_h5 pg = Some (txt, a_tags) \<and> contains ''Categories'' txt \<longrightarrow>
               map_of d ''categories'' =
                 Some (PList (map (\<lambda>a. PStr (get_text_strip a))
                         (filter (\<lambda>a. \<not> contains ''Categories'' (get_text a)) a_tags))))"
        by (intro conjI) (erule conjunct1 conjunct2 | assumption)+
    qed
    have cut: "\<forall>ds. pages_match pg = Some ds \<and> 4300 < length ds \<longrightarrow>
           map fst d = keys_before_pages @ [''error'']
         \<and> map_of d ''error'' = Some (PStr (int_limit_message (length ds)))"
    proof (intro allI impI)
      fix ds assume h: "pages_match pg = Some ds \<and> 4300 < length ds"
      note eq = scrape_pages_raise [of w url pg ds, OF pg conjunct1 [OF h] conjunct2 [OF h],
          folded d_def]
      show "map fst d = keys_before_pages @ [''error'']
         \<and> map_of d ''error'' = Some (PStr (int_limit_message (length ds)))"
        by (simp add: eq keys_before_pages_def)
    qed
    note six = scrape_first_six [of w url pg, OF pg, folded d_def]
    have early: "(title_tag pg = None \<longrightarrow> map_of d ''page_title'' = Some (PStr (driver_title pg)))
       \<and> (\<forall>t. title_tag pg = Some t \<longrightarrow> map_of d ''page_title'' = Some (PStr (strip t)))
       \<and> (meta_desc pg = None \<or> meta_desc pg = Some None \<or> meta_desc pg = Some (Some []) \<longrightarrow>
             map_of d ''meta_description'' = Some (PStr ''N/A''))
       \<and> (\<forall>c. meta_desc pg = Some (Some c) \<and> c \<noteq> [] \<longrightarrow>
             map_of d ''meta_description'' = Some (PStr (strip c)))
       \<and> (deadline_match pg = None \<longrightarrow> map_of d ''detailed_deadline'' = Some (PStr ''N/A''))
       \<and> (\<forall>g. deadline_match pg = Some g \<longrightarrow>
             map_of d ''detailed_deadline'' = Some (PStr (strip g)))
       \<and> (review_match pg = None \<longrightarrow> map_of d ''review_time'' = Some (PStr ''N/A''))
       \<and> (\<forall>g. review_match pg = Some g \<longrightarrow> map_of d ''review_time'' = Some (PStr (strip g)))
       \<and> (rank_match pg = None \<longrightarrow> map_of d ''conference_rank'' = Some (PStr ''N/A''))
       \<and> (\<forall>g. rank_match pg = Some g \<longrightarrow>
             map_of d ''conference_rank'' = Some (PStr (strip g)))
       \<and> map_of d ''is_workshop'' = Some (PBool (workshop_text pg))"
      by (auto simp: six page_title_of_def meta_description_of_def or_na_def)
    show "((\<forall>ds. pages_match pg = Some ds \<longrightarrow> length ds \<le> 4300) \<longrightarrow>
           map fst d = detail_keys
         \<and> (pages_match pg = None \<longrightarrow> map_of d ''minimum_pages'' = Some (PStr ''N/A''))
         \<and> (\<forall>ds. pages_match pg = Some ds \<longrightarrow>
               map_of d ''minimum_pages'' = Some (PInt (int (nat_of_digits ds))))
         \<and> (link_text pg = None \<or> link_text pg = Some None \<or> link_text pg = Some (Some None) \<longrightarrow>
               map_of d ''website_link'' = Some (PStr ''N/A''))
         \<and> (\<forall>h. link_text pg = Some (Some (Some h)) \<longrightarrow>
               map_of d ''website_link'' = Some (PStr h))
         \<and> (cat_h5 pg = None
              \<or> (\<exists>txt a_tags. cat_h5 pg = Some (txt, a_tags) \<and> \<not> contains ''Categories'' txt) \<longrightarrow>
               map_of d ''categories'' = Some (PList []))
         \<and> (\<forall>txt a_tags. cat_h5 pg = Some (txt, a_tags) \<and> contains ''Categories'' txt \<longrightarrow>
               map_of d ''categories'' =
                 Some (PList (map (\<lambda>a. PStr (get_text_strip a))
                         (filter (\<lambda>a. \<not> contains ''Categories'' (get_text a)) a_tags)))))
     \<and> (\<forall>ds. pages_match pg = Some ds \<and> 4300 < length ds \<longrightarrow>
           map fst d = keys_before_pages @ [''error'']
         \<and> map_of d ''error'' = Some (PStr (int_limit_message (length ds))))
     \<and> ((title_tag pg = None \<longrightarrow> map_of d ''page_title'' = Some (PStr (driver_title pg)))
       \<and> (\<forall>t. title_tag pg = Some t \<longrightarrow> map_of d ''page_title'' = Some (PStr (strip t)))
       \<and> (meta_desc pg = None \<or> meta_desc pg = Some None \<or> meta_desc pg = Some (Some []) \<longrightarrow>
             map_of d ''meta_description'' = Some (PStr ''N/A''))
       \<and> (\<forall>c. meta_desc pg = Some (Some c) \<and> c \<noteq> [] \<longrightarrow>
             map_of d ''meta_description'' = Some (PStr (strip c)))
       \<and> (deadline_match pg = None \<longrightarrow> map_of d ''detailed_deadline'' = Some (PStr ''N/A''))
       \<and> (\<forall>g. deadline_match pg = Some g \<longrightarrow>
             map_of d ''detailed_deadline'' = Some (PStr (strip g)))
       \<and> (review_match pg = None \<longrightarrow> map_of d ''review_time'' = Some (PStr ''N/A''))
       \<and> (\<forall>g. review_match pg = Some g \<longrightarrow> map_of d ''review_time'' = Some (PStr (strip g)))
       \<and> (rank_match pg = None \<longrightarrow> map_of d ''conference_rank'' = Some (PStr ''N/A''))
       \<and> (\<forall>g. rank_match pg = Some g \<longrightarrow>
             map_of d ''conference_rank'' = Some (PStr (strip g)))
       \<and> map_of d ''is_workshop'' = Some (PBool (workshop_text pg)))"
      by (rule conjI [OF complete conjI [OF cut early]])
  qed
  show ?thesis by (rule conjI [OF failed loaded])
qed

theorem scrape_event_details_fields_witness:
  "scrape_event_details
     (\<lambda>u. if u = PStr ''http://a/1''
          then Inr \<lparr>title_tag = None, driver_title = ''ICML 2025'', meta_desc = Some None,
                    deadline_match = None, review_match = None, rank_match = None,
                    workshop_text = False, pages_match = Some ''8'', link_text = Some None,
                    cat_h5 = Some (''Topics'', [[''AI'']])\<rparr>
          else if u = PStr ''http://c/3''
          then Inr \<lparr>title_tag = Some '' KR 2025 '', driver_title = ''KR'', meta_desc = None,
                    deadline_match = None, review_match = None, rank_match = None,
                    workshop_text = True, pages_match = Some (replicate 4301 CHR ''1''),
                    link_text = None, cat_h5 = None\<rparr>
          else Inl ''timeout'')
     (PStr ''http://b/2'') = [(''error'', PStr ''timeout'')]
   \<and> map fst (scrape_event_details
     (\<lambda>u. if u = PStr ''http://a/1''
          then Inr \<lparr>title_tag = None, driver_title = ''ICML 2025'', meta_desc = Some None,
                    deadline_match = None, review_match = None, rank_match = None,
                    workshop_text = False, pages_match = Some ''8'', link_text = Some None,
                    cat_h5 = Some (''Topics'', [[''AI'']])\<rparr>
          else if u = PStr ''http://c/3''
          then Inr \<lparr>title_tag = Some '' KR 2025 '', driver_title = ''KR'', meta_desc = None,
                    deadline_match = None, review_match = None, rank_match = None,
                    workshop_text = True, pages_match = Some (replicate 4301 CHR ''1''),
                    link_text = None, cat_h5 = None\<rparr>
          else Inl ''timeout'')
     (PStr ''http://a/1'')) = detail_keys
   \<and> map_of (scrape_event_details
     (\<lambda>u. if u = PStr ''http://a/1''
          then Inr \<lparr>title_tag = None, driver_title = ''ICML 2025'', meta_desc = Some None,
                    deadline_match = None, review_match = None, rank_match = None,
                    workshop_text = False, pages_match = Some ''8'', link_text = Some None,
                    cat_h5 = Some (''Topics'', [[''AI'']])\<rparr>
          else if u = PStr ''http://c/3''
          then Inr \<lparr>title_tag = Some '' KR 2025 '', driver_title = ''KR'', meta_desc = None,
                    deadline_match = None, review_match = None, rank_match = None,
                    workshop_text = True, pages_match = Some (replicate 4301 CHR ''1''),
                    link_text = None, cat_h5 = None\<rparr>
          else Inl ''timeout'')
     (PStr ''http://a/1'')) ''minimum_pages'' = Some (PInt 8)
   \<and> map_of (scrape_event_details
     (\<lambda>u. if u = PStr ''http://a/1''
          then Inr \<lparr>title_tag = None, driver_title = ''ICML 2025'', meta_desc = Some None,
                    deadline_match = None, review_match = None, rank_match = None,
                    workshop_text = False, pages_match = Some ''8'', link_text = Some None,
                    cat_h5 = Some (''Topics'', [[''AI'']])\<rparr>
          else if u = PStr ''http://c/3''
          then Inr \<lparr>title_tag = Some '' KR 2025 '', driver_title = ''KR'', meta_desc = None,
                    deadline_match = None, review_match = None, rank_match = None,
                    workshop_text = True, pages_match = Some (replicate 4301 CHR ''1''),
                    link_text = None, cat_h5 = None\<rparr>
          else Inl ''timeout'')
     (PStr ''http://a/1'')) ''meta_description'' = Some (PStr ''N/A'')
   \<and> map_of (scrape_event_details
     (\<lambda>u. if u = PStr ''http://a/1''
          then Inr \<lparr>title_tag = None, driver_title = ''ICML 2025'', meta_desc = Some None,
                    deadline_match = None, review_match = None, rank_match = None,
                    workshop_text = False, pages_match = Some ''8'', link_text = Some None,
                    cat_h5 = Some (''Topics'', [[''AI'']])\<rparr>
          else if u = PStr ''http://c/3''
          then Inr \<lparr>title_tag = Some '' KR 2025 '', driver_title = ''KR'', meta_desc = None,
                    deadline_match = None, review_match = None, rank_match = None,
                    workshop_text = True, pages_match = Some (replicate 4301 CHR ''1''),
                    link_text = None, cat_h5 = None\<rparr>
          else Inl ''timeout'')
     (PStr ''http://a/1'')) ''website_link'' = Some (PStr ''N/A'')
   \<and> map_of (scrape_event_details
     (\<lambda>u. if u = PStr ''http://a/1''
          then Inr \<lparr>title_tag = None, driver_title = ''ICML 2025'', meta_desc = Some None,
                    deadline_match = None, review_match = None, rank_match = None,
                    workshop_text = False, pages_match = Some ''8'', link_text = Some None,
                    cat_h5 = Some (''Topics'', [[''AI'']])\<rparr>
          else if u = PStr ''http://c/3''
          then Inr \<lparr>title_tag = Some '' KR 2025 '', driver_title = ''KR'', meta_desc = None,
                    deadline_match = None, review_match = None, rank_match = None,
                    workshop_text = True, pages_match = Some (replicate 4301 CHR ''1''),
                    link_text = None, cat_h5 = None\<rparr>
          else Inl ''timeout'')
     (PStr ''http://a/1'')) ''categories'' = Some (PList [])
   \<and> map fst (scrape_event_details
     (\<lambda>u. if u = PStr ''http://a/1''
          then Inr \<lparr>title_tag = None, driver_title = ''ICML 2025'', meta_desc = Some None,
                    deadline_match = None, review_match = None, rank_match = None,
                    workshop_text = False, pages_match = Some ''8'', link_text = Some None,
                    cat_h5 = Some (''Topics'', [[''AI'']])\<rparr>
          else if u = PStr ''http://c/3''
          then Inr \<lparr>title_tag = Some '' KR 2025 '', driver_title = ''KR'', meta_desc = None,
                    deadline_match = None, review_match = None, rank_match = None,
                    workshop_text = True, pages_match = Some (replicate 4301 CHR ''1''),
                    link_text = None, cat_h5 = None\<rparr>
          else Inl ''timeout'')
     (PStr ''http://c/3'')) = keys_before_pages @ [''error'']
   \<and> map_of (scrape_event_details
     (\<lambda>u. if u = PStr ''http://a/1''
          then Inr \<lparr>title_tag = None, driver_title = ''ICML 2025'', meta_desc = Some None,
                    deadline_match = None, review_match = None, rank_match = None,
                    workshop_text = False, pages_match = Some ''8'', link_text = Some None,
                    cat_h5 = Some (''Topics'', [[''AI'']])\<rparr>
          else if u = PStr ''http://c/3''
          then Inr \<lparr>title_tag = Some '' KR 2025 '', driver_title = ''KR'', meta_desc = None,
                    deadline_match = None, review_match = None, rank_match = None,
                    workshop_text = True, pages_match = Some (replicate 4301 CHR ''1''),
                    link_text = None, cat_h5 = None\<rparr>
          else Inl ''timeout'')
     (PStr ''http://c/3'')) ''page_title'' = Some (PStr ''KR 2025'')"
  using scrape_event_details_fields [of
     "\<lambda>u. if u = PStr ''http://a/1''
          then Inr \<lparr>title_tag = None, driver_title = ''ICML 2025'', meta_desc = Some None,
                    deadline_match = None, review_match = None, rank_match = None,
                    workshop_text = False, pages_match = Some ''8'', link_text = Some None,
                    cat_h5 = Some (''Topics'', [[''AI'']])\<rparr>
          else if u = PStr ''http://c/3''
          then Inr \<lparr>title_tag = Some '' KR 2025 '', driver_title = ''KR'', meta_desc = None,
                    deadline_match = None, review_match = None, rank_match = None,
                    workshop_text = True, pages_match = Some (replicate 4301 CHR ''1''),
                    link_text = None, cat_h5 = None\<rparr>
          else Inl ''timeout''" "PStr ''http://b/2''"]
    scrape_event_details_fields [of
     "\<lambda>u. if u = PStr ''http://a/1''
          then Inr \<lparr>title_tag = None, driver_title = ''ICML 2025'', meta_desc = Some None,
                    deadline_match = None, review_match = None, rank_match = None,
                    workshop_text = False, pages_match = Some ''8'', link_text = Some None,
                    cat_h5 = Some (''Topics'', [[''AI'']])\<rparr>
          else if u = PStr ''http://c/3''
          then Inr \<lparr>title_tag = Some '' KR 2025 '', driver_title = ''KR'', meta_desc = None,
                    deadline_match = None, review_match = None, rank_match = None,
                    workshop_text = True, pages_match = Some (replicate 4301 CHR ''1''),
                    link_text = None, cat_h5 = None\<rparr>
          else Inl ''timeout''" "PStr ''http://a/1''"]
    scrape_event_details_fields [of
     "\<lambda>u. if u = PStr ''http://a/1''
          then Inr \<lparr>title_tag = None, driver_title = ''ICML 2025'', meta_desc = Some None,
                    deadline_match = None, review_match = None, rank_match = None,
                    workshop_text = False, pages_match = Some ''8'', link_text = Some None,
                    cat_h5 = Some (''Topics'', [[''AI'']])\<rparr>
          else if u = PStr ''http://c/3''
          then Inr \<lparr>title_tag = Some '' KR 2025 '', driver_title = ''KR'', meta_desc = None,
                    deadline_match = None, review_match = None, rank_match = None,
                    workshop_text = True, pages_match = Some (replicate 4301 CHR ''1''),
                    link_text = None, cat_h5 = None\<rparr>
          else Inl ''timeout''" "PStr ''http://c/3''"]
  by (simp add: nat_of_digits_def digit_value_def strip_def is_space_def)

text \<open>
  Claim C9 as stated fails on a fetch that raises: the attribute set then holds the
  \<open>error\<close> key alone; \<open>page_title\<close>, \<open>categories\<close> and the other fields are missing.
\<close>

theorem scrape_event_details_failure_counterexample:
  "scrape_event_details (\<lambda>u. Inl ''timeout'') (PStr ''http://a/1'') = [(''error'', PStr ''timeout'')]
   \<and> map_of (scrape_event_details (\<lambda>u. Inl ''timeout'') (PStr ''http://a/1'')) ''page_title'' = None
   \<and> map_of (scrape_event_details (\<lambda>u. Inl ''timeout'') (PStr ''http://a/1'')) ''categories'' = None"
  by (simp add: scrape_event_details_def)

section \<open>The detail pass of main: proofs\<close>

lemma process_record_link:
  "process_record fmt rows i = Some e \<Longrightarrow> ''link'' \<in> fst ` set e"
  by (auto simp: process_record_def Let_def event_data_def case_prod_beta split: if_splits)

lemma set_map_filter: "set (List.map_filter f xs) = {y. \<exists>x \<in> set xs. f x = Some y}"
  by (induction xs) (auto split: option.splits)

lemma process_data_table_link:
  "e \<in> set (process_data_table fmt p) \<Longrightarrow> ''link'' \<in> fst ` set e"
  by (auto simp: process_data_table_def rows_loop_map_filter set_map_filter
        split: option.splits if_splits dest: process_record_link)

lemma paginate_events_link:
  "\<forall>e \<in> set (all_events s). ''link'' \<in> fst ` set e \<Longrightarrow>
   \<forall>e \<in> set (all_events (paginate fmt C s)). ''link'' \<in> fst ` set e"
proof (induction fmt C s rule: paginate.induct)
  case (1 fmt max_pages s)
  have v: "\<forall>e \<in> set (all_events (visit fmt s)). ''link'' \<in> fst ` set e"
    using "1.prems" by (auto simp: visit_def dest: process_data_table_link)
  then have a: "\<forall>e \<in> set (all_events (advance (visit fmt s))). ''link'' \<in> fst ` set e"
    by (simp add: advance_def)
  show ?case
  proof (cases "max_pages \<le> page_count (visit fmt s)")
    case True
    then have "paginate fmt max_pages s = visit fmt s" by (subst paginate.simps) simp
    with v show ?thesis by simp
  next
    case False
    show ?thesis
    proof (cases "fst (click_next_page (driver (visit fmt s)))")
      case True
      have "paginate fmt max_pages s = paginate fmt max_pages (advance (visit fmt s))"
        using False True by (subst paginate.simps) simp
      with "1.IH" [OF False _ a] True show ?thesis by simp
    next
      case nc: False
      have "paginate fmt max_pages s = advance (visit fmt s)"
        using False nc by (subst paginate.simps) simp
      with a show ?thesis by simp
    qed
  qed
qed

lemma details_loop_filter:
  "\<forall>e \<in> set events. ''link'' \<in> fst ` set e \<Longrightarrow>
   details_loop w events acc =
   Inr (acc @ map (\<lambda>e. dict_merge e (scrape_event_details w (the (map_of e ''link''))))
                (filter has_link events))"
proof (induction events arbitrary: acc)
  case Nil
  then show ?case by simp
next
  case (Cons e events)
  from Cons.prems obtain l where l: "map_of e ''link'' = Some l"
    by (cases "map_of e ''link''") (auto simp: map_of_eq_None_iff)
  from Cons.prems have rest: "\<forall>e \<in> set events. ''link'' \<in> fst ` set e" by simp
  show ?case
    by (simp add: l has_link_def Cons.IH [OF rest])
qed

lemma map_of_dict_merge_other:
  "k \<notin> fst ` set b \<Longrightarrow> map_of (dict_merge a b) k = map_of a k"
  unfolding dict_merge_def
  by (induction b arbitrary: a) (auto simp: update_conv')

lemma scrape_no_link: "''link'' \<notin> fst ` set (scrape_event_details w l)"
proof -
  have "fst ` set (scrape_event_details w l) = set (map fst (scrape_event_details w l))" by simp
  also have "\<dots> \<subseteq> set detail_keys \<union> {''error''}" by (rule scrape_keys)
  finally show ?thesis by (auto simp: detail_keys_def)
qed

lemma has_link_merged:
  "has_link (dict_merge e (scrape_event_details w l)) = has_link e"
  by (simp add: has_link_def map_of_dict_merge_other [OF scrape_no_link])

text \<open>
  Claim C10. The array that \<open>main\<close> writes (to the output file and to the cache copy)
  holds one merged record for each listed record whose \<open>link\<close> is true and not "N/A",
  in listing order, and nothing else: every written record has such a link, and no
  written record carries the link value of a listed record that was passed over.
\<close>

theorem gather_main_drops_records_without_link:
  fixes fmt w e max_pages p files
  defines "listed \<equiv> all_events (paginate fmt max_pages (start p))"
  defines "out \<equiv> map (\<lambda>ev. dict_merge ev (scrape_event_details w (the (map_of ev ''link''))))
                     (filter has_link listed)"
  shows "gather_main fmt w e max_pages p files =
           Inr (files(getenv e ''OUTPUT_FILE'' ''output.json'' \<mapsto> Json (PList (map PDict out)),
                      path_join (path_join (getenv e ''DATA_OUTPUT'' ''data_output'') ''cache'')
                        ''cache_output.json'' \<mapsto> Json (PList (map PDict out))))
       \<and> length out = length (filter has_link listed)
       \<and> (\<forall>r \<in> set out. has_link r)
       \<and> (\<forall>ev \<in> set listed. \<not> has_link ev \<longrightarrow>
             (\<forall>r \<in> set out. map_of r ''link'' \<noteq> map_of ev ''link''))"
proof -
  have links: "\<forall>ev \<in> set listed. ''link'' \<in> fst ` set ev"
    unfolding listed_def by (rule paginate_events_link) (simp add: start_def)
  have loop: "details_loop w listed [] = Inr out"
    unfolding out_def by (simp add: details_loop_filter [OF links])
  have 1: "gather_main fmt w e max_pages p files =
           Inr (files(getenv e ''OUTPUT_FILE'' ''output.json'' \<mapsto> Json (PList (map PDict out)),
                      path_join (path_join (getenv e ''DATA_OUTPUT'' ''data_output'') ''cache'')
                        ''cache_output.json'' \<mapsto> Json (PList (map PDict out))))"
    using loop by (simp add: gather_main_def Let_def listed_def [symmetric])
  have 2: "length out = length (filter has_link listed)" by (simp add: out_def)
  have 3: "\<forall>r \<in> set out. has_link r"
    by (auto simp: out_def has_link_merged)
  have keep: "map_of r ''link'' \<noteq> map_of ev ''link''"
    if "r \<in> set out" and "ev \<in> set listed" and "\<not> has_link ev" for r ev
  proof -
    from that(1) obtain ev' where ev': "has_link ev'"
      and r: "r = dict_merge ev' (scrape_event_details w (the (map_of ev' ''link'')))"
      by (auto simp: out_def)
    have "map_of r ''link'' = map_of ev' ''link''"
      by (simp add: r map_of_dict_merge_other [OF scrape_no_link])
    with ev' that(3) show ?thesis by (auto simp: has_link_def split: option.splits)
  qed
  from 1 2 3 keep show ?thesis by blast
qed

theorem gather_main_drops_records_without_link_witness:
  "gather_main (\<lambda>s. None) (\<lambda>u. Inl ''timeout'') Map.empty 5
     (Page (Some [[Cell ''Event'' None],
                  [Cell ''x'' (Some (Anchor ''ICML'' (Some ''http://a/1''))), Cell ''Learning'' None],
                  [Cell ''Jul 1'' None, Cell ''Vienna'' None, Cell ''TBD'' None],
                  [Cell ''KR'' None, Cell ''Knowledge'' None],
                  [Cell ''Nov 2'' None, Cell ''Hanoi'' None, Cell ''TBD'' None]]) None)
     Map.empty
   = Inr (Map.empty(
       ''output.json'' \<mapsto> Json (PList [PDict
          [(''event_name'', PStr ''ICML''), (''description'', PStr ''Learning''),
           (''link'', PStr ''http://a/1''), (''when'', PStr ''Jul 1''),
           (''where'', PStr ''Vienna''), (''deadline'', PStr ''TBD''),
           (''error'', PStr ''timeout'')]]),
       ''data_output/cache/cache_output.json'' \<mapsto> Json (PList [PDict
          [(''event_name'', PStr ''ICML''), (''description'', PStr ''Learning''),
           (''link'', PStr ''http://a/1''), (''when'', PStr ''Jul 1''),
           (''where'', PStr ''Vienna''), (''deadline'', PStr ''TBD''),
           (''error'', PStr ''timeout'')]])))"
  using gather_main_drops_records_without_link [of "\<lambda>s. None" "\<lambda>u. Inl ''timeout''" Map.empty 5
     "Page (Some [[Cell ''Event'' None],
                  [Cell ''x'' (Some (Anchor ''ICML'' (Some ''http://a/1''))), Cell ''Learning'' None],
                  [Cell ''Jul 1'' None, Cell ''Vienna'' None, Cell ''TBD'' None],
                  [Cell ''KR'' None, Cell ''Knowledge'' None],
                  [Cell ''Nov 2'' None, Cell ''Hanoi'' None, Cell ''TBD'' None]]) None"
     Map.empty]
  by (simp add: paginate.simps start_def visit_def advance_def click_next_page_def
        process_data_table_def rows_loop.simps
        process_record_def event_data_def name_and_link_def when_where_deadline_def
        format_deadline_def split_first_def strip_def is_space_def has_link_def dict_merge_def
        scrape_event_details_def getenv_def path_join_def)

section \<open>The ranking cache: proofs\<close>

text \<open>
  Claim C4, as the code has it. \<open>load_ranking_cache\<close> returns the empty mapping when
  the cache file is absent and the decoded content when the file decodes. When the file
  exists and does not decode, the decoding error leaves the function: nothing catches
  it, and \<open>enrich_conferences\<close> ends there, before any lookup and without writing.
\<close>

theorem load_ranking_cache_cases:
  "(files (ranking_cache_path e) = None \<longrightarrow> load_ranking_cache e files = Inr (PDict []))
   \<and> (\<forall>v. files (ranking_cache_path e) = Some (Json v) \<longrightarrow> load_ranking_cache e files = Inr v)
   \<and> (files (ranking_cache_path e) = Some Undecodable \<longrightarrow>
        load_ranking_cache e files = Inl JSONDecodeError
      \<and> raised (enrich_conferences world e conferences output_path files) = Some JSONDecodeError
      \<and> lookups (enrich_conferences world e conferences output_path files) = []
      \<and> disk (enrich_conferences world e conferences output_path files) = files)"
  by (simp add: load_ranking_cache_def ranking_cache_path_def json_load_def
        enrich_conferences_def Let_def)

theorem load_ranking_cache_cases_witness:
  "load_ranking_cache Map.empty Map.empty = Inr (PDict [])
   \<and> load_ranking_cache Map.empty
         [''data_output/cache/ranking_cache.json'' \<mapsto> Json (PDict [(''ICML'', PStr ''A*'')])]
       = Inr (PDict [(''ICML'', PStr ''A*'')])
   \<and> raised (enrich_conferences (\<lambda>t n. \<lparr>page_loads = True, search_box = False,
                 submit_button = False, results_table = None\<rparr>) Map.empty
               [[(''event_name'', PStr ''KR 2025'')]] ''output.json''
               [''data_output/cache/ranking_cache.json'' \<mapsto> Undecodable])
       = Some JSONDecodeError"
  using load_ranking_cache_cases [of Map.empty Map.empty]
    load_ranking_cache_cases [of
      "[''data_output/cache/ranking_cache.json'' \<mapsto> Json (PDict [(''ICML'', PStr ''A*'')])]"
      Map.empty]
    load_ranking_cache_cases [of
      "[''data_output/cache/ranking_cache.json'' \<mapsto> Undecodable]" Map.empty
      "\<lambda>t n. \<lparr>page_loads = True, search_box = False, submit_button = False, results_table = None\<rparr>"
      "[[(''event_name'', PStr ''KR 2025'')]]" "''output.json''"]
  by (simp add: ranking_cache_path_def getenv_def path_join_def)

text \<open>Claim C4 as stated fails on a cache file that does not decode: loading raises.\<close>

theorem load_ranking_cache_corrupt_counterexample:
  "load_ranking_cache Map.empty [''data_output/cache/ranking_cache.json'' \<mapsto> Undecodable]
   = Inl JSONDecodeError"
  by (simp add: load_ranking_cache_def getenv_def path_join_def json_load_def)

text \<open>
  Claim C5. Storing the record \<open>r\<close> under the key \<open>k\<close> in the cache dictionary and
  flushing it with \<open>store_ranking_cache\<close>, as the loop does for a newly resolved name,
  then loading the cache from the same file system and environment, gives back a
  dictionary in which \<open>k\<close> is present and bound to \<open>r\<close>.
\<close>

theorem store_then_load_ranking_cache:
  "py_setitem (PDict cache) k r = Inr (PDict (AList.update k r cache))
   \<and> load_ranking_cache e (store_ranking_cache e (PDict (AList.update k r cache)) files)
       = Inr (PDict (AList.update k r cache))
   \<and> py_in k (PDict (AList.update k r cache)) = Inr True
   \<and> py_getitem (PDict (AList.update k r cache)) k = Inr r"
  by (simp add: py_setitem_def load_ranking_cache_def store_ranking_cache_def Let_def
        json_load_def py_in_def py_getitem_def update_conv' dom_update)

theorem store_then_load_ranking_cache_witness:
  "load_ranking_cache Map.empty
     (store_ranking_cache Map.empty
        (PDict (AList.update ''ICML'' (PStr ''A'') [(''KR'', PStr ''B'')])) Map.empty)
   = Inr (PDict [(''KR'', PStr ''B''), (''ICML'', PStr ''A'')])
   \<and> py_getitem (PDict (AList.update ''ICML'' (PStr ''A'') [(''KR'', PStr ''B'')])) ''ICML''
       = Inr (PStr ''A'')"
  using store_then_load_ranking_cache [of "[(''KR'', PStr ''B'')]" "''ICML''" "PStr ''A''"
     Map.empty Map.empty]
  by simp

section \<open>The ranking resolver: proofs\<close>

text \<open>
  A result that is not marked as found is the record of defaults, untouched: the fields
  of the first row are stored all at once, together with \<open>found = True\<close>. A search
  without results, and a wait that times out inside the \<open>try\<close>, return that record.
\<close>

lemma first_row_fields_found:
  "first_row_fields r = Some f \<Longrightarrow>
   map_of (dict_merge default_result f) ''found'' = Some (PBool True)
   \<and> map fst (dict_merge default_result f) = map fst default_result"
  by (auto simp: first_row_fields_def dict_merge_def default_result_def
        split: Option.bind_splits)

lemma map_of_update_other: "k' \<noteq> k \<Longrightarrow> map_of (AList.update k v al) k' = map_of al k'"
  by (simp add: update_conv')

lemma get_core_ranking_not_found_defaults:
  assumes "get_core_ranking portal name = Inr r"
    and "map_of r ''found'' \<noteq> Some (PBool True)"
  shows "r = default_result"
proof (rule ccontr)
  assume ne: "r \<noteq> default_result"
  from assms(1) ne obtain row f where f: "first_row_fields row = Some f"
    and r: "r = dict_merge default_result f \<or>
            (\<exists>v. r = AList.update ''dblp_link'' v (dict_merge default_result f))"
    by (auto simp: get_core_ranking_def Let_def
          split: if_splits option.splits prod.splits list.splits)
  from first_row_fields_found [OF f] r have "map_of r ''found'' = Some (PBool True)"
    by (auto simp: map_of_update_other)
  with assms(2) show False by simp
qed

lemma get_core_ranking_negative_results:
  "page_loads (portal name) \<Longrightarrow>
   (\<not> search_box (portal name) \<or> \<not> submit_button (portal name)
     \<or> results_table (portal name) = None
     \<or> (\<exists>txt rows. results_table (portal name) = Some (txt, rows)
           \<and> (contains ''0 Results found.'' txt \<or> rows = []))) \<Longrightarrow>
   get_core_ranking portal name = Inr default_result"
  by (auto simp: get_core_ranking_def Let_def)

text \<open>
  Claim C8 at a lookup whose page load fails. \<open>driver.get(search_url)\<close> stands before
  the \<open>try\<close> of \<open>get_core_ranking\<close>, so its exception is not turned into a record
  with \<open>found = False\<close>: it leaves the function and ends the enrichment loop at the first
  conference, with no conference enriched.
\<close>

theorem get_core_ranking_page_load_failure:
  "get_core_ranking
     (\<lambda>name. \<lparr>page_loads = False, search_box = False, submit_button = False,
               results_table = None\<rparr>) ''ICML'' = Inl WebDriverException
   \<and> raised (enrich_conferences
        (\<lambda>t name. \<lparr>page_loads = False, search_box = False, submit_button = False,
                    results_table = None\<rparr>)
        Map.empty
        [[(''event_name'', PStr ''ICML 2025'')], [(''event_name'', PStr ''KR 2025'')]]
        ''output.json'' Map.empty) = Some WebDriverException
   \<and> done_confs (enrich_conferences
        (\<lambda>t name. \<lparr>page_loads = False, search_box = False, submit_button = False,
                    results_table = None\<rparr>)
        Map.empty
        [[(''event_name'', PStr ''ICML 2025'')], [(''event_name'', PStr ''KR 2025'')]]
        ''output.json'' Map.empty) = []"
  by (simp add: get_core_ranking_def enrich_conferences_def load_ranking_cache_def
        enrich_step_def extract_conference_name_def py_in_def Let_def)

section \<open>The enrichment loop: proofs\<close>

text \<open>\<open>split\<close> with a separator never returns the empty list, so its element 0, which
  \<open>extract_conference_name\<close> takes, always exists.\<close>

lemma split_on_not_Nil: "split_on c s \<noteq> []"
  by (induction s) (auto split: list.splits)

lemma extract_conference_name_event_name:
  "map_of conf ''page_title'' = None \<Longrightarrow> map_of conf ''event_name'' = Some (PStr n) \<Longrightarrow>
   \<exists>w ws. split_on CHR '' '' n = w # ws \<and> extract_conference_name conf = Inr w"
  using split_on_not_Nil [of "CHR '' ''" n]
  by (cases "split_on CHR '' '' n") (simp_all add: extract_conference_name_def)

lemma py_in_dict: "py_in k (PDict d) = Inr (k \<in> fst ` set d)"
  by (simp add: py_in_def)


lemma load_stored:
  "files (ranking_cache_path e) = Some (Json c) \<Longrightarrow> load_ranking_cache e files = Inr c"
  by (simp add: load_ranking_cache_def ranking_cache_path_def json_load_def)

lemma store_at_path:
  "store_ranking_cache e c files (ranking_cache_path e) = Some (Json c)"
  by (simp add: store_ranking_cache_def ranking_cache_path_def Let_def)

text \<open>The step keeps every binding of a dictionary cache, and keeps the file in step.\<close>

lemma enrich_step_keeps:
  assumes "ranking_cache s = PDict d" and "map_of d k = Some v"
    and "disk s (ranking_cache_path e) = Some (Json (ranking_cache s))"
  shows "\<exists>d'. ranking_cache (enrich_step world e conf s) = PDict d' \<and> map_of d' k = Some v
            \<and> disk (enrich_step world e conf s) (ranking_cache_path e) = Some (Json (PDict d'))"
proof -
  have in_d: "k \<in> fst ` set d" using assms(2) by (metis map_of_eq_None_iff option.distinct(1))
  show ?thesis
    using assms in_d
    by (auto simp: enrich_step_def py_in_dict py_setitem_def update_conv' store_at_path
          split: sum.splits bool.splits)
qed

lemma enrich_loop_keeps:
  assumes "ranking_cache s = PDict d" and "map_of d k = Some v"
    and "disk s (ranking_cache_path e) = Some (Json (ranking_cache s))"
  shows "\<exists>d'. ranking_cache (enrich_loop world e confs s) = PDict d' \<and> map_of d' k = Some v
            \<and> disk (enrich_loop world e confs s) (ranking_cache_path e) = Some (Json (PDict d'))"
  using assms
proof (induction confs arbitrary: s d)
  case Nil
  then show ?case by simp
next
  case (Cons conf rest)
  from enrich_step_keeps [OF Cons.prems, of world conf]
  obtain d' where d': "ranking_cache (enrich_step world e conf s) = PDict d'"
    "map_of d' k = Some v"
    "disk (enrich_step world e conf s) (ranking_cache_path e) = Some (Json (PDict d'))"
    by blast
  show ?case
  proof (cases "raised (enrich_step world e conf s)")
    case None
    with Cons.IH [of "enrich_step world e conf s" d'] d' show ?thesis by simp
  next
    case (Some err)
    with d' show ?thesis by simp
  qed
qed
text \<open>
  Claim C6. The loop stores into the cache only in the branch taken when the name is
  not yet a key. So once a step has resolved the name \<open>k\<close> to \<open>r1\<close> and stored it,
  whatever records follow (also records with the same name, for which the portal would
  now answer differently), the cache at the end of the loop still binds \<open>k\<close> to
  \<open>r1\<close>, and so does the cache file.
\<close>

theorem ranking_cache_first_write_wins:
  assumes "ranking_cache s = PDict d"
    and "extract_conference_name c1 = Inr k"
    and "k \<notin> fst ` set d"
    and "get_core_ranking (world (length (lookups s))) k = Inr r1"
  shows "\<exists>d'. ranking_cache (enrich_loop world e (c1 # rest) s) = PDict d'
            \<and> map_of d' k = Some (PDict r1)
            \<and> load_ranking_cache e (disk (enrich_loop world e (c1 # rest) s)) = Inr (PDict d')"
proof -
  let ?s1 = "enrich_step world e c1 s"
  let ?d1 = "AList.update k (PDict r1) d"
  have c: "ranking_cache ?s1 = PDict ?d1"
    and f: "disk ?s1 (ranking_cache_path e) = Some (Json (ranking_cache ?s1))"
    using assms by (simp_all add: enrich_step_def py_in_dict py_setitem_def store_at_path)
  have b: "map_of ?d1 k = Some (PDict r1)" by (simp add: update_conv')
  have "\<exists>d'. ranking_cache ?s1 = PDict d' \<and> map_of d' k = Some (PDict r1)
            \<and> disk ?s1 (ranking_cache_path e) = Some (Json (PDict d'))"
    using c f b by simp
  moreover from enrich_loop_keeps [OF c b f, of world rest]
  have "\<exists>d'. ranking_cache (enrich_loop world e rest ?s1) = PDict d'
            \<and> map_of d' k = Some (PDict r1)
            \<and> disk (enrich_loop world e rest ?s1) (ranking_cache_path e) = Some (Json (PDict d'))" .
  ultimately have "\<exists>d'. ranking_cache (enrich_loop world e (c1 # rest) s) = PDict d'
            \<and> map_of d' k = Some (PDict r1)
            \<and> disk (enrich_loop world e (c1 # rest) s) (ranking_cache_path e) = Some (Json (PDict d'))"
    by (cases "raised ?s1") simp_all
  then show ?thesis by (auto dest: load_stored)
qed

theorem ranking_cache_first_write_wins_witness:
  "\<exists>d'. ranking_cache (enrich_loop
        (\<lambda>t name. \<lparr>page_loads = True, search_box = True, submit_button = True,
           results_table = Some (''1 result'',
             [ResultRow [''Int Conf ML'', ''ICML'', ''CORE'', (if t = 0 then ''A'' else ''B''),
                         ''n'', ''d'', ''4611'', ''c'', ''4.5''] None])\<rparr>)
        Map.empty
        [[(''event_name'', PStr ''ICML 2025'')], [(''event_name'', PStr ''ICML 2026'')]]
        \<lparr>done_confs = [], ranking_cache = PDict [], disk = Map.empty, lookups = [],
         raised = None\<rparr>) = PDict d'
     \<and> map_of d' ''ICML'' = Some (PDict
          [(''title'', PStr ''Int Conf ML''), (''acronym'', PStr ''ICML''),
           (''source'', PStr ''CORE''), (''rank'', PStr ''A''), (''note'', PStr ''n''),
           (''dblp_link'', PStr ''N/A''), (''primary_for'', PStr ''4611''),
           (''comments'', PStr ''c''), (''average_rating'', PStr ''4.5''),
           (''found'', PBool True)])"
  using ranking_cache_first_write_wins [of
     "\<lparr>done_confs = [], ranking_cache = PDict [], disk = Map.empty, lookups = [],
       raised = None\<rparr>"
     "[]" "[(''event_name'', PStr ''ICML 2025'')]" "''ICML''"
     "\<lambda>t name. \<lparr>page_loads = True, search_box = True, submit_button = True,
           results_table = Some (''1 result'',
             [ResultRow [''Int Conf ML'', ''ICML'', ''CORE'', (if t = 0 then ''A'' else ''B''),
                         ''n'', ''d'', ''4611'', ''c'', ''4.5''] None])\<rparr>"
     "[(''title'', PStr ''Int Conf ML''), (''acronym'', PStr ''ICML''),
           (''source'', PStr ''CORE''), (''rank'', PStr ''A''), (''note'', PStr ''n''),
           (''dblp_link'', PStr ''N/A''), (''primary_for'', PStr ''4611''),
           (''comments'', PStr ''c''), (''average_rating'', PStr ''4.5''),
           (''found'', PBool True)]"
     Map.empty "[[(''event_name'', PStr ''ICML 2026'')]]"]
  by (simp add: extract_conference_name_def get_core_ranking_def first_row_fields_def
        td_text_def strip_def is_space_def default_result_def dict_merge_def Let_def) blast





end
